theory Spec2Isabelle
  imports Main "HOL-Library.AList"
begin

section \<open>JavaScript values and strings\<close>

text \<open>
  The store (\<^verbatim>\<open>store.js\<close>) and the server (\<^verbatim>\<open>index.js\<close>) receive untyped JSON.
  A textual attribute is modelled as absent (\<^verbatim>\<open>undefined\<close>), \<^verbatim>\<open>null\<close> or a string; a
  numeric attribute as absent, \<^verbatim>\<open>null\<close> or an integer number. A string is a list of
  characters, each a code unit from U+0000 to U+00FF; strings with other code units are
  outside the model. On these, \<^verbatim>\<open>trim\<close> removes the white space and line terminators of
  the language (U+0009 to U+000D, U+0020 and the no-break space U+00A0), and
  \<^verbatim>\<open>toLowerCase\<close> maps A to Z and the capital letters U+00C0 to U+00DE (U+00D7, the
  multiplication sign, is no letter) to the letters 32 code units above.
\<close>

datatype jsstr = Undefined | Null | Str string

datatype jsnum = NumUndefined | NumNull | Num int

text \<open>\<^verbatim>\<open>String(v || "")\<close>: absent, null and the empty string all give the empty string.\<close>

fun str_or_empty :: "jsstr \<Rightarrow> string" where
  "str_or_empty (Str s) = s"
| "str_or_empty Undefined = []"
| "str_or_empty Null = []"

text \<open>\<^verbatim>\<open>Number.isFinite(Number(v)) ? Number(v) : null\<close>; \<^verbatim>\<open>Number(null)\<close> is 0 and
  \<^verbatim>\<open>Number(undefined)\<close> is NaN.\<close>

fun finite_number :: "jsnum \<Rightarrow> int option" where
  "finite_number (Num n) = Some n"
| "finite_number NumNull = Some 0"
| "finite_number NumUndefined = None"

definition is_space :: "char \<Rightarrow> bool" where
  "is_space c =
     (c \<in> set [CHR '' '', CHR 0x09, CHR 0x0A, CHR 0x0B, CHR 0x0C, CHR 0x0D, CHR 0xA0])"

definition trim :: "string \<Rightarrow> string" where
  "trim s = rev (dropWhile is_space (rev (dropWhile is_space s)))"

definition upper_letters :: string where
  "upper_letters =
     ''ABCDEFGHIJKLMNOPQRSTUVWXYZ'' @
     [CHR 0xC0, CHR 0xC1, CHR 0xC2, CHR 0xC3, CHR 0xC4, CHR 0xC5, CHR 0xC6, CHR 0xC7,
      CHR 0xC8, CHR 0xC9, CHR 0xCA, CHR 0xCB, CHR 0xCC, CHR 0xCD, CHR 0xCE, CHR 0xCF,
      CHR 0xD0, CHR 0xD1, CHR 0xD2, CHR 0xD3, CHR 0xD4, CHR 0xD5, CHR 0xD6, CHR 0xD8,
      CHR 0xD9, CHR 0xDA, CHR 0xDB, CHR 0xDC, CHR 0xDD, CHR 0xDE]"

definition lower_letters :: string where
  "lower_letters =
     ''abcdefghijklmnopqrstuvwxyz'' @
     [CHR 0xE0, CHR 0xE1, CHR 0xE2, CHR 0xE3, CHR 0xE4, CHR 0xE5, CHR 0xE6, CHR 0xE7,
      CHR 0xE8, CHR 0xE9, CHR 0xEA, CHR 0xEB, CHR 0xEC, CHR 0xED, CHR 0xEE, CHR 0xEF,
      CHR 0xF0, CHR 0xF1, CHR 0xF2, CHR 0xF3, CHR 0xF4, CHR 0xF5, CHR 0xF6, CHR 0xF8,
      CHR 0xF9, CHR 0xFA, CHR 0xFB, CHR 0xFC, CHR 0xFD, CHR 0xFE]"

definition lower_char :: "char \<Rightarrow> char" where
  "lower_char c =
     (case map_of (zip upper_letters lower_letters) c of
        None \<Rightarrow> c
      | Some d \<Rightarrow> d)"

definition toLowerCase :: "string \<Rightarrow> string" where
  "toLowerCase s = map lower_char s"

definition startsWith :: "string \<Rightarrow> string \<Rightarrow> bool" where
  "startsWith s p = (take (length p) s = p)"

text \<open>\<^verbatim>\<open>s || null\<close> on a string.\<close>

definition str_or_null :: "string \<Rightarrow> string option" where
  "str_or_null s = (if s = [] then None else Some s)"

text \<open>
  \<^verbatim>\<open>Array.prototype.sort(cmp)\<close> is stable; it is modelled by a stable insertion sort that
  moves an element behind another only when the comparator returns a positive number.
  For a consistent comparator the language fixes the sorted array, and this is it. The
  comparator of the source is \<^verbatim>\<open>localeCompare\<close>, a function of the platform, so it is a
  parameter \<open>lc\<close> of every definition that sorts.
\<close>

fun insert_js :: "('a \<Rightarrow> 'a \<Rightarrow> int) \<Rightarrow> 'a \<Rightarrow> 'a list \<Rightarrow> 'a list" where
  "insert_js cmp x [] = [x]"
| "insert_js cmp x (y # ys) = (if 0 < cmp x y then y # insert_js cmp x ys else x # y # ys)"

definition sort_js :: "('a \<Rightarrow> 'a \<Rightarrow> int) \<Rightarrow> 'a list \<Rightarrow> 'a list" where
  "sort_js cmp xs = foldr (insert_js cmp) xs []"

text \<open>\<^verbatim>\<open>xs.slice(-n)\<close> for \<open>n \<ge> 0\<close>: the last \<open>n\<close> elements, and all of them for \<open>-0\<close>.\<close>

definition slice_last :: "nat \<Rightarrow> 'a list \<Rightarrow> 'a list" where
  "slice_last n xs = (if n = 0 then xs else drop (length xs - n) xs)"

text \<open>A code-unit comparison, one comparator that \<open>lc\<close> can be; used to run the model.\<close>

fun codeUnitCompare :: "string \<Rightarrow> string \<Rightarrow> int" where
  "codeUnitCompare [] [] = 0"
| "codeUnitCompare [] (y # ys) = - 1"
| "codeUnitCompare (x # xs) [] = 1"
| "codeUnitCompare (x # xs) (y # ys) =
     (if (of_char x :: nat) < of_char y then - 1
      else if (of_char y :: nat) < of_char x then 1
      else codeUnitCompare xs ys)"

section \<open>The data model of the store\<close>

record raw_media =
  rm_url :: jsstr
  rm_fileName :: jsstr
  rm_mimeType :: jsstr
  rm_size :: jsnum
  rm_durationSec :: jsnum
  rm_width :: jsnum
  rm_height :: jsnum

record media =
  md_url :: string
  md_fileName :: "string option"
  md_mimeType :: "string option"
  md_size :: "int option"
  md_durationSec :: "int option"
  md_width :: "int option"
  md_height :: "int option"

record message =
  m_id :: string
  m_chatId :: string
  m_senderId :: string
  m_senderName :: string
  m_kind :: string
  m_text :: string
  m_media :: "media option"
  m_createdAt :: string
  m_readBy :: "string list option"  \<comment> \<open>\<open>None\<close>: not an array\<close>

record chat =
  c_id :: string
  c_type :: string
  c_participantIds :: "string list"
  c_createdAt :: string
  c_updatedAt :: string

record user =
  u_id :: string
  u_name :: string
  u_login :: string  \<comment> \<open>empty when the stored user has no login\<close>
  u_email :: "string option"
  u_passwordHash :: "string option"
  u_createdAt :: string

record public_user =
  pu_id :: string
  pu_name :: string
  pu_login :: string
  pu_email :: "string option"
  pu_createdAt :: string

record dataset =
  users :: "user list"
  chats :: "chat list"
  messages :: "message list"

text \<open>The document \<^verbatim>\<open>ensureDataFile\<close> writes when there is none.\<close>

definition initialData :: dataset where
  "initialData = \<lparr>users = [], chats = [], messages = []\<rparr>"

text \<open>
  The errors the store and the handlers raise or acknowledge. The source carries them as
  messages; each constructor stands for one message, named after the spec's taxonomy.
\<close>

datatype error =
    Conflict_UserExists       \<comment> \<open>createUser: the login is taken\<close>
  | InvalidArgument_SelfChat  \<comment> \<open>createOrGetDirectChat: a chat with oneself\<close>
  | NotFound_Chat             \<comment> \<open>addMessage, ensureChatAccess, createCall: no such chat\<close>
  | Forbidden_Chat            \<comment> \<open>ensureChatAccess: not a participant of the chat\<close>
  | InvalidArgument_NoChatId  \<comment> \<open>a handler: the chat id is missing\<close>
  | InvalidArgument_EmptyText \<comment> \<open>send_message: an empty text message\<close>
  | InvalidArgument_NoFile    \<comment> \<open>upload: no file was sent\<close>
  | NotFound_Call             \<comment> \<open>a call handler: no such call\<close>
  | Forbidden_Call            \<comment> \<open>a call handler: not a participant of the call\<close>

definition MAX_MESSAGES :: nat where
  "MAX_MESSAGES = 3000"

section \<open>The store\<close>

definition toPublicUser :: "user \<Rightarrow> public_user" where
  "toPublicUser u =
     \<lparr>pu_id = u_id u,
      pu_name = u_name u,
      pu_login = (if u_login u \<noteq> [] then u_login u else u_name u),
      pu_email = u_email u,
      pu_createdAt = u_createdAt u\<rparr>"

definition normalizeLogin :: "jsstr \<Rightarrow> string" where
  "normalizeLogin v = toLowerCase (trim (str_or_empty v))"

text \<open>\<^verbatim>\<open>u.login || u.name\<close> of a stored user.\<close>

definition login_or_name :: "user \<Rightarrow> jsstr" where
  "login_or_name u = Str (if u_login u \<noteq> [] then u_login u else u_name u)"

text \<open>\<^verbatim>\<open>createUser\<close>; \<open>newId\<close> is the result of \<^verbatim>\<open>crypto.randomUUID()\<close> and \<open>now\<close> the
  time stamp, as in every operation below that draws them.\<close>

definition createUser ::
  "string \<Rightarrow> string \<Rightarrow> jsstr \<Rightarrow> jsstr \<Rightarrow> jsstr \<Rightarrow> string option \<Rightarrow> dataset
     \<Rightarrow> error + (public_user \<times> dataset)" where
  "createUser newId now name login email passwordHash data =
     (let normalizedLogin =
            normalizeLogin (if str_or_empty login \<noteq> [] then login else name);
          normalizedName = trim (str_or_empty name);
          normalizedEmail = str_or_null (toLowerCase (trim (str_or_empty email)))
      in case find (\<lambda>u. normalizeLogin (login_or_name u) = normalizedLogin) (users data) of
           Some existing \<Rightarrow> Inl Conflict_UserExists
         | None \<Rightarrow>
             (let user = \<lparr>u_id = newId, u_name = normalizedName, u_login = normalizedLogin,
                          u_email = normalizedEmail, u_passwordHash = passwordHash,
                          u_createdAt = now\<rparr>
              in Inr (toPublicUser user, data\<lparr>users := users data @ [user]\<rparr>)))"

definition normalizePair :: "(string \<Rightarrow> string \<Rightarrow> int) \<Rightarrow> string \<Rightarrow> string \<Rightarrow> string list" where
  "normalizePair lc userA userB = sort_js lc [userA, userB]"

definition findDirectChat ::
  "(string \<Rightarrow> string \<Rightarrow> int) \<Rightarrow> dataset \<Rightarrow> string \<Rightarrow> string \<Rightarrow> chat option" where
  "findDirectChat lc data userA userB =
     (let pair = normalizePair lc userA userB
      in find (\<lambda>chat.
            if c_type chat \<noteq> ''direct'' then False
            else if length (c_participantIds chat) \<noteq> 2 then False
            else (let ids = sort_js lc (c_participantIds chat)
                  in ids ! 0 = pair ! 0 \<and> ids ! 1 = pair ! 1))
          (chats data))"

definition createOrGetDirectChat ::
  "(string \<Rightarrow> string \<Rightarrow> int) \<Rightarrow> string \<Rightarrow> string \<Rightarrow> string \<Rightarrow> string \<Rightarrow> string \<Rightarrow> dataset
     \<Rightarrow> error + (chat \<times> dataset)" where
  "createOrGetDirectChat lc newId createdNow updatedNow userA userB data =
     (let pair = normalizePair lc userA userB;
          firstId = pair ! 0;
          secondId = pair ! 1
      in if firstId = secondId then Inl InvalidArgument_SelfChat
         else (case findDirectChat lc data firstId secondId of
                 Some existing \<Rightarrow> Inr (existing, data)
               | None \<Rightarrow>
                   (let chat = \<lparr>c_id = newId, c_type = ''direct'',
                                c_participantIds = [firstId, secondId],
                                c_createdAt = createdNow, c_updatedAt = updatedNow\<rparr>
                    in Inr (chat, data\<lparr>chats := chats data @ [chat]\<rparr>))))"

definition getChatById :: "string \<Rightarrow> dataset \<Rightarrow> chat option" where
  "getChatById chatId data = find (\<lambda>c. c_id c = chatId) (chats data)"

definition listUserChatIds :: "string \<Rightarrow> dataset \<Rightarrow> string list" where
  "listUserChatIds userId data =
     map c_id (filter (\<lambda>chat. userId \<in> set (c_participantIds chat)) (chats data))"

definition isUserInChat :: "chat option \<Rightarrow> string \<Rightarrow> bool" where
  "isUserInChat chat userId =
     (case chat of None \<Rightarrow> False | Some c \<Rightarrow> userId \<in> set (c_participantIds c))"

definition normalizeMedia :: "raw_media option \<Rightarrow> media option" where
  "normalizeMedia media =
     (case media of
        None \<Rightarrow> None
      | Some rm \<Rightarrow>
          (let url = trim (str_or_empty (rm_url rm))
           in if url = [] then None
              else Some \<lparr>md_url = url,
                         md_fileName = str_or_null (trim (str_or_empty (rm_fileName rm))),
                         md_mimeType = str_or_null (trim (str_or_empty (rm_mimeType rm))),
                         md_size = finite_number (rm_size rm),
                         md_durationSec = finite_number (rm_durationSec rm),
                         md_width = finite_number (rm_width rm),
                         md_height = finite_number (rm_height rm)\<rparr>))"

definition store_kinds :: "string list" where
  "store_kinds = [''text'', ''image'', ''video'', ''audio'', ''file'', ''system'']"

definition normalizeKind :: "jsstr \<Rightarrow> media option \<Rightarrow> string" where
  "normalizeKind kind media =
     (let v = toLowerCase (trim (str_or_empty kind))
      in if v \<in> set store_kinds then v
         else if media \<noteq> None then ''file'' else ''text'')"

text \<open>A stored media object as \<^verbatim>\<open>normalizeMessage\<close> reads it back: an attribute that was
  stored as \<^verbatim>\<open>null\<close> is \<^verbatim>\<open>null\<close>.\<close>

definition stored_media :: "media \<Rightarrow> raw_media" where
  "stored_media md =
     \<lparr>rm_url = Str (md_url md),
      rm_fileName = (case md_fileName md of None \<Rightarrow> Null | Some s \<Rightarrow> Str s),
      rm_mimeType = (case md_mimeType md of None \<Rightarrow> Null | Some s \<Rightarrow> Str s),
      rm_size = (case md_size md of None \<Rightarrow> NumNull | Some n \<Rightarrow> Num n),
      rm_durationSec = (case md_durationSec md of None \<Rightarrow> NumNull | Some n \<Rightarrow> Num n),
      rm_width = (case md_width md of None \<Rightarrow> NumNull | Some n \<Rightarrow> Num n),
      rm_height = (case md_height md of None \<Rightarrow> NumNull | Some n \<Rightarrow> Num n)\<rparr>"

definition normalizeMessage :: "message \<Rightarrow> message" where
  "normalizeMessage message =
     (let media = normalizeMedia (map_option stored_media (m_media message))
      in \<lparr>m_id = m_id message,
          m_chatId = m_chatId message,
          m_senderId = m_senderId message,
          m_senderName = m_senderName message,
          m_kind = normalizeKind (Str (m_kind message)) media,
          m_text = m_text message,
          m_media = media,
          m_createdAt = m_createdAt message,
          m_readBy = Some (case m_readBy message of None \<Rightarrow> [] | Some r \<Rightarrow> r)\<rparr>)"

text \<open>The arguments of \<^verbatim>\<open>addMessage\<close>; \<open>a_kind = Undefined\<close> takes the default
  \<^verbatim>\<open>kind = "text"\<close> and an absent or non-object \<open>a_media\<close> is \<open>None\<close>.\<close>

record add_args =
  a_chatId :: string
  a_senderId :: string
  a_senderName :: string
  a_text :: jsstr
  a_kind :: jsstr
  a_media :: "raw_media option"

text \<open>The message object \<^verbatim>\<open>addMessage\<close> builds before it reads the data.\<close>

definition newMessage :: "string \<Rightarrow> string \<Rightarrow> add_args \<Rightarrow> message" where
  "newMessage newId now a =
     (let normalizedMedia = normalizeMedia (a_media a)
      in \<lparr>m_id = newId,
          m_chatId = a_chatId a,
          m_senderId = a_senderId a,
          m_senderName = a_senderName a,
          m_kind = normalizeKind (case a_kind a of Undefined \<Rightarrow> Str ''text'' | k \<Rightarrow> k)
                     normalizedMedia,
          m_text = str_or_empty (a_text a),
          m_media = normalizedMedia,
          m_createdAt = now,
          m_readBy = Some [a_senderId a]\<rparr>)"

text \<open>\<^verbatim>\<open>chat.updatedAt = ...\<close> on the object \<^verbatim>\<open>find\<close> returned: the first chat with the id.\<close>

fun update_first :: "('a \<Rightarrow> bool) \<Rightarrow> ('a \<Rightarrow> 'a) \<Rightarrow> 'a list \<Rightarrow> 'a list" where
  "update_first P f [] = []"
| "update_first P f (x # xs) = (if P x then f x # xs else x # update_first P f xs)"

definition addMessage ::
  "string \<Rightarrow> string \<Rightarrow> add_args \<Rightarrow> dataset \<Rightarrow> error + (message \<times> dataset)" where
  "addMessage newId now a data =
     (let message = newMessage newId now a
      in case find (\<lambda>c. c_id c = a_chatId a) (chats data) of
           None \<Rightarrow> Inl NotFound_Chat
         | Some chat \<Rightarrow>
             (let pushed = messages data @ [message];
                  chats' = update_first (\<lambda>c. c_id c = a_chatId a)
                             (\<lambda>c. c\<lparr>c_updatedAt := m_createdAt message\<rparr>) (chats data);
                  kept = (if MAX_MESSAGES < length pushed then slice_last MAX_MESSAGES pushed
                          else pushed)
              in Inr (normalizeMessage message, data\<lparr>chats := chats', messages := kept\<rparr>)))"

text \<open>\<^verbatim>\<open>Math.max(1, limit)\<close> for an integer \<open>limit\<close>.\<close>

definition listMessagesForChat :: "string \<Rightarrow> int \<Rightarrow> dataset \<Rightarrow> message list" where
  "listMessagesForChat chatId limit data =
     map normalizeMessage
       (slice_last (nat (max 1 limit)) (filter (\<lambda>m. m_chatId m = chatId) (messages data)))"

text \<open>One turn of the loop of \<^verbatim>\<open>markChatAsRead\<close>: the message after it, and whether
  \<^verbatim>\<open>changed\<close> was set.\<close>

definition markMessage :: "string \<Rightarrow> string \<Rightarrow> message \<Rightarrow> message \<times> bool" where
  "markMessage chatId userId m =
     (if m_chatId m \<noteq> chatId then (m, False)
      else (case m_readBy m of
              None \<Rightarrow> (m\<lparr>m_readBy := Some [userId]\<rparr>, True)
            | Some r \<Rightarrow>
                if userId \<notin> set r then (m\<lparr>m_readBy := Some (r @ [userId])\<rparr>, True)
                else (m, False)))"

fun markLoop :: "string \<Rightarrow> string \<Rightarrow> message list \<Rightarrow> message list \<times> bool" where
  "markLoop chatId userId [] = ([], False)"
| "markLoop chatId userId (m # ms) =
     (let (m', c1) = markMessage chatId userId m;
          (ms', c2) = markLoop chatId userId ms
      in (m' # ms', c1 \<or> c2))"

definition markChatAsRead :: "string \<Rightarrow> string \<Rightarrow> dataset \<Rightarrow> dataset" where
  "markChatAsRead chatId userId data =
     (let (ms, changed) = markLoop chatId userId (messages data)
      in if changed then data\<lparr>messages := ms\<rparr> else data)"

definition computeUnreadForChat :: "dataset \<Rightarrow> string \<Rightarrow> string \<Rightarrow> nat" where
  "computeUnreadForChat data chatId userId =
     length (filter (\<lambda>m.
        if m_chatId m \<noteq> chatId then False
        else if m_senderId m = userId then False
        else (case m_readBy m of None \<Rightarrow> True | Some r \<Rightarrow> userId \<notin> set r))
       (messages data))"

datatype preview =
    PreviewText string      \<comment> \<open>the text of a text message\<close>
  | PreviewMessage          \<comment> \<open>the label of a text message with no text\<close>
  | PreviewPhoto
  | PreviewVideo
  | PreviewVoice
  | PreviewFileName string  \<comment> \<open>the file label followed by the file name\<close>
  | PreviewFile
  | PreviewService

definition buildLastMessagePreview :: "message \<Rightarrow> preview" where
  "buildLastMessagePreview message =
     (let normalized = normalizeMessage message
      in if m_kind normalized = ''text''
         then (if m_text normalized \<noteq> [] then PreviewText (m_text normalized)
               else PreviewMessage)
         else if m_kind normalized = ''image'' then PreviewPhoto
         else if m_kind normalized = ''video'' then PreviewVideo
         else if m_kind normalized = ''audio'' then PreviewVoice
         else if m_kind normalized = ''file''
         then (case m_media normalized of
                 None \<Rightarrow> PreviewFile
               | Some md \<Rightarrow>
                   (case md_fileName md of
                      None \<Rightarrow> PreviewFile
                    | Some n \<Rightarrow> PreviewFileName n))
         else PreviewService)"

record last_message =
  lm_id :: string
  lm_senderId :: string
  lm_senderName :: string
  lm_kind :: string
  lm_text :: string
  lm_media :: "media option"
  lm_preview :: preview
  lm_createdAt :: string

record summary =
  s_id :: string
  s_type :: string
  s_participantIds :: "string list"
  s_contact :: "public_user option"
  s_updatedAt :: string
  s_lastMessage :: "last_message option"
  s_unreadCount :: nat

text \<open>The summary \<^verbatim>\<open>listChatsForUser\<close> maps a chat to.\<close>

definition chatSummary :: "dataset \<Rightarrow> string \<Rightarrow> chat \<Rightarrow> summary" where
  "chatSummary data userId chat =
     (let otherUserId =
            (case find (\<lambda>i. i \<noteq> userId) (c_participantIds chat) of
               None \<Rightarrow> None
             | Some i \<Rightarrow> if i = [] then None else Some i);
          otherUser =
            (case otherUserId of
               None \<Rightarrow> None
             | Some i \<Rightarrow> find (\<lambda>u. u_id u = i) (users data));
          msgs = filter (\<lambda>m. m_chatId m = c_id chat) (messages data);
          lastMessage = (if msgs = [] then None else Some (normalizeMessage (last msgs)))
      in \<lparr>s_id = c_id chat,
          s_type = c_type chat,
          s_participantIds = c_participantIds chat,
          s_contact = map_option toPublicUser otherUser,
          s_updatedAt =
            (case lastMessage of
               Some lm \<Rightarrow>
                 if m_createdAt lm \<noteq> [] then m_createdAt lm
                 else if c_updatedAt chat \<noteq> [] then c_updatedAt chat
                 else c_createdAt chat
             | None \<Rightarrow>
                 if c_updatedAt chat \<noteq> [] then c_updatedAt chat else c_createdAt chat),
          s_lastMessage =
            map_option (\<lambda>lm.
              \<lparr>lm_id = m_id lm, lm_senderId = m_senderId lm,
               lm_senderName = m_senderName lm, lm_kind = m_kind lm, lm_text = m_text lm,
               lm_media = m_media lm, lm_preview = buildLastMessagePreview lm,
               lm_createdAt = m_createdAt lm\<rparr>) lastMessage,
          s_unreadCount = computeUnreadForChat data (c_id chat) userId\<rparr>)"

definition listChatsForUser ::
  "(string \<Rightarrow> string \<Rightarrow> int) \<Rightarrow> string \<Rightarrow> dataset \<Rightarrow> summary list" where
  "listChatsForUser lc userId data =
     sort_js (\<lambda>a b. lc (s_updatedAt b) (s_updatedAt a))
       (map (chatSummary data userId)
          (filter (\<lambda>chat. isUserInChat (Some chat) userId) (chats data)))"

definition getChatParticipants :: "string \<Rightarrow> dataset \<Rightarrow> public_user list" where
  "getChatParticipants chatId data =
     (case find (\<lambda>c. c_id c = chatId) (chats data) of
        None \<Rightarrow> []
      | Some chat \<Rightarrow>
          map toPublicUser (filter (\<lambda>u. u_id u \<in> set (c_participantIds chat)) (users data)))"

text \<open>The data file after an operation that started from \<open>data\<close>: an operation that
  throws never reaches \<^verbatim>\<open>writeData\<close>.\<close>

definition persisted :: "dataset \<Rightarrow> error + ('a \<times> dataset) \<Rightarrow> dataset" where
  "persisted data r = (case r of Inl e \<Rightarrow> data | Inr (x, data') \<Rightarrow> data')"

text \<open>A sequence of \<^verbatim>\<open>addMessage\<close> calls, each with the id and the time stamp it draws.\<close>

fun addMessages :: "(string \<times> string \<times> add_args) list \<Rightarrow> dataset \<Rightarrow> dataset" where
  "addMessages [] data = data"
| "addMessages ((newId, now, a) # rs) data =
     addMessages rs (persisted data (addMessage newId now a data))"

text \<open>The messages the calls of a sequence create: one for each call whose chat exists.\<close>

definition created :: "dataset \<Rightarrow> (string \<times> string \<times> add_args) list \<Rightarrow> message list" where
  "created data rs =
     map (\<lambda>(newId, now, a). newMessage newId now a)
       (filter (\<lambda>(newId, now, a). getChatById (a_chatId a) data \<noteq> None) rs)"

text \<open>The users a message has been read by, as a set.\<close>

definition readers :: "message \<Rightarrow> string set" where
  "readers m = (case m_readBy m of None \<Rightarrow> {} | Some r \<Rightarrow> set r)"

text \<open>The unread count in the words of the spec: the messages of the chat authored by
  someone other than the user whose readers do not contain the user.\<close>

definition unread_spec :: "dataset \<Rightarrow> string \<Rightarrow> string \<Rightarrow> nat" where
  "unread_spec data chatId userId =
     length (filter (\<lambda>m. m_chatId m = chatId \<and> m_senderId m \<noteq> userId \<and> userId \<notin> readers m)
       (messages data))"

text \<open>The read operations of the store and the data file each leaves behind; the two
  listings never call \<^verbatim>\<open>writeData\<close>.\<close>

datatype read_op =
    ListChatsForUser string
  | ListMessagesForChat string int
  | MarkChatAsRead string string

fun after_read :: "read_op \<Rightarrow> dataset \<Rightarrow> dataset" where
  "after_read (ListChatsForUser userId) data = data"
| "after_read (ListMessagesForChat chatId limit) data = data"
| "after_read (MarkChatAsRead chatId userId) data = markChatAsRead chatId userId data"

text \<open>The store states that the operations reach from the initial document.\<close>

inductive reachable :: "(string \<Rightarrow> string \<Rightarrow> int) \<Rightarrow> dataset \<Rightarrow> bool"
  for lc :: "string \<Rightarrow> string \<Rightarrow> int" where
  reach_init: "reachable lc initialData"
| reach_user: "reachable lc data \<Longrightarrow>
     reachable lc (persisted data (createUser newId now name login email pw data))"
| reach_chat: "reachable lc data \<Longrightarrow>
     reachable lc (persisted data (createOrGetDirectChat lc newId t1 t2 userA userB data))"
| reach_message: "reachable lc data \<Longrightarrow>
     reachable lc (persisted data (addMessage newId now a data))"
| reach_read: "reachable lc data \<Longrightarrow> reachable lc (markChatAsRead chatId userId data)"

section \<open>The server: messages\<close>

text \<open>
  A handler is a function of the server state: the data file and the registry of calls
  (\<^verbatim>\<open>activeCalls\<close>, a \<^verbatim>\<open>Map\<close> in insertion order, here an association list). It returns
  its acknowledgement, the events it emits, each with the room it is sent to, in the
  order of emission, and the state it leaves. The payload of a relayed negotiation
  message is opaque, of a type \<open>'p\<close>.
\<close>

record call =
  call_id :: string
  call_chatId :: string
  call_kind :: string
  call_callerId :: string
  call_callerName :: string
  call_participantIds :: "string list"
  call_roomUrl :: string
  call_status :: string
  call_createdAt :: string

record server =
  store :: dataset
  activeCalls :: "(string \<times> call) list"

text \<open>\<^verbatim>\<open>socket.data.user\<close>.\<close>

record sock_user =
  su_id :: string
  su_name :: string
  su_login :: string
  su_email :: "string option"

record incoming_call =
  ic_callId :: string
  ic_chatId :: string
  ic_fromUserId :: string
  ic_fromUserName :: string
  ic_kind :: string
  ic_roomUrl :: string
  ic_createdAt :: string

record call_answered =
  ca_callId :: string
  ca_chatId :: string
  ca_accepted :: bool
  ca_answeredByUserId :: string
  ca_answeredByName :: string
  ca_roomUrl :: "string option"  \<comment> \<open>\<open>None\<close>: the event has no such attribute\<close>
  ca_kind :: "string option"

record call_ended =
  ce_callId :: string
  ce_chatId :: string
  ce_reason :: string
  ce_endedByUserId :: "string option"

record 'p relayed =
  rl_callId :: string
  rl_fromUserId :: string
  rl_payload :: 'p  \<comment> \<open>\<^verbatim>\<open>sdp\<close> or \<^verbatim>\<open>candidate\<close>\<close>

datatype 'p event =
    ChatUpdated string
  | NewMessage message
  | IncomingCall incoming_call
  | CallAnswered call_answered
  | CallEnded call_ended
  | WebrtcOffer "'p relayed"
  | WebrtcAnswer "'p relayed"
  | WebrtcIceCandidate "'p relayed"

datatype ack =
    AckError error
  | AckOk
  | AckOkMessage string  \<comment> \<open>\<^verbatim>\<open>{ok: true, messageId}\<close>\<close>
  | AckOkCall call       \<comment> \<open>\<^verbatim>\<open>{ok: true, call}\<close>\<close>

definition user_room :: "string \<Rightarrow> string" where
  "user_room userId = ''user:'' @ userId"

definition sanitizeText :: "jsstr \<Rightarrow> string" where
  "sanitizeText v = take 2000 (trim (str_or_empty v))"

definition inferKindFromMime :: "jsstr \<Rightarrow> string" where
  "inferKindFromMime mimeType =
     (let mime = toLowerCase (str_or_empty mimeType)
      in if startsWith mime ''image/'' then ''image''
         else if startsWith mime ''video/'' then ''video''
         else if startsWith mime ''audio/'' then ''audio''
         else ''file'')"

definition server_kinds :: "string list" where
  "server_kinds = [''text'', ''image'', ''video'', ''audio'', ''file'']"

definition normalizeMessageKind :: "jsstr \<Rightarrow> jsstr \<Rightarrow> string" where
  "normalizeMessageKind kind fallbackMime =
     (let v = toLowerCase (trim (str_or_empty kind))
      in if v \<in> set server_kinds then v else inferKindFromMime fallbackMime)"

definition parseOptionalNumber :: "jsnum \<Rightarrow> jsnum" where
  "parseOptionalNumber v = (case finite_number v of None \<Rightarrow> NumNull | Some n \<Rightarrow> Num n)"

definition buildWebCallUrl :: "string \<Rightarrow> string \<Rightarrow> string" where
  "buildWebCallUrl callId kind =
     (let base = ''https://meet.jit.si/chat-together-'' @ callId
      in if kind = ''audio''
         then base @ ''#config.startWithVideoMuted=true&config.disableFilmstrip=true''
         else base)"

definition emitChatUpdated :: "string \<Rightarrow> dataset \<Rightarrow> (string \<times> 'p event) list" where
  "emitChatUpdated chatId data =
     map (\<lambda>participant. (user_room (pu_id participant), ChatUpdated chatId))
       (getChatParticipants chatId data)"

definition emitNewMessage :: "string \<Rightarrow> message \<Rightarrow> dataset \<Rightarrow> (string \<times> 'p event) list" where
  "emitNewMessage chatId message data =
     map (\<lambda>participant. (user_room (pu_id participant), NewMessage message))
       (getChatParticipants chatId data)
     @ emitChatUpdated chatId data"

definition sendMessageAndBroadcast ::
  "string \<Rightarrow> string \<Rightarrow> string \<Rightarrow> string \<Rightarrow> string \<Rightarrow> string \<Rightarrow> string \<Rightarrow> raw_media option
     \<Rightarrow> dataset \<Rightarrow> error + (message \<times> (string \<times> 'p event) list \<times> dataset)" where
  "sendMessageAndBroadcast newId now chatId senderId senderName kind text media data =
     (case addMessage newId now
             \<lparr>a_chatId = chatId, a_senderId = senderId, a_senderName = senderName,
              a_text = Str text, a_kind = Str kind, a_media = media\<rparr> data of
        Inl e \<Rightarrow> Inl e
      | Inr (message, data') \<Rightarrow> Inr (message, emitNewMessage chatId message data', data'))"

definition ensureChatAccess :: "string \<Rightarrow> string \<Rightarrow> dataset \<Rightarrow> error + chat" where
  "ensureChatAccess chatId userId data =
     (case getChatById chatId data of
        None \<Rightarrow> Inl NotFound_Chat
      | Some chat \<Rightarrow>
          if \<not> isUserInChat (Some chat) userId then Inl Forbidden_Chat else Inr chat)"

record send_payload =
  sp_chatId :: jsstr
  sp_kind :: jsstr
  sp_text :: jsstr
  sp_media :: "raw_media option"  \<comment> \<open>\<open>None\<close>: absent or not an object\<close>

definition send_message ::
  "string \<Rightarrow> string \<Rightarrow> sock_user \<Rightarrow> send_payload \<Rightarrow> server
     \<Rightarrow> ack \<times> (string \<times> 'p event) list \<times> server" where
  "send_message newId now user payload s =
     (let chatId = trim (str_or_empty (sp_chatId payload));
          kind = normalizeMessageKind (sp_kind payload)
                   (case sp_media payload of None \<Rightarrow> Undefined | Some rm \<Rightarrow> rm_mimeType rm);
          text = sanitizeText (sp_text payload);
          media = sp_media payload
      in if chatId = [] then (AckError InvalidArgument_NoChatId, [], s)
         else if kind = ''text'' \<and> text = [] then (AckError InvalidArgument_EmptyText, [], s)
         else (case ensureChatAccess chatId (su_id user) (store s) of
                 Inl e \<Rightarrow> (AckError e, [], s)
               | Inr chat \<Rightarrow>
                   (case sendMessageAndBroadcast newId now (c_id chat) (su_id user)
                           (su_name user) kind text media (store s) of
                      Inl e \<Rightarrow> (AckError e, [], s)
                    | Inr (message, emitted, data') \<Rightarrow>
                        (AckOkMessage (m_id message), emitted, s\<lparr>store := data'\<rparr>))))"

text \<open>
  The upload route, from the point where the user of the token has been found: the file
  \<^verbatim>\<open>multer\<close> stored, if any, and the fields of the form. It answers with a status and an
  error, or with the message.
\<close>

record upload_file =
  uf_filename :: string
  uf_originalname :: string
  uf_mimetype :: string
  uf_size :: int

record upload_body =
  ub_caption :: jsstr
  ub_kind :: jsstr
  ub_durationSec :: jsnum
  ub_width :: jsnum
  ub_height :: jsnum

datatype response = ResponseError nat error | ResponseCreated message

definition upload ::
  "string \<Rightarrow> string \<Rightarrow> user \<Rightarrow> string \<Rightarrow> upload_file option \<Rightarrow> upload_body \<Rightarrow> server
     \<Rightarrow> response \<times> (string \<times> 'p event) list \<times> server" where
  "upload newId now user chatId file body s =
     (case ensureChatAccess chatId (u_id user) (store s) of
        Inl e \<Rightarrow> (ResponseError (if e = NotFound_Chat then 404 else 403) e, [], s)
      | Inr chat \<Rightarrow>
          (case file of
             None \<Rightarrow> (ResponseError 400 InvalidArgument_NoFile, [], s)
           | Some f \<Rightarrow>
               (let text = sanitizeText (ub_caption body);
                    kind = normalizeMessageKind (ub_kind body) (Str (uf_mimetype f));
                    media =
                      \<lparr>rm_url = Str (''/uploads/'' @ uf_filename f),
                       rm_fileName = Str (if uf_originalname f \<noteq> [] then uf_originalname f
                                          else uf_filename f),
                       rm_mimeType = Str (uf_mimetype f),
                       rm_size = Num (uf_size f),
                       rm_durationSec = parseOptionalNumber (ub_durationSec body),
                       rm_width = parseOptionalNumber (ub_width body),
                       rm_height = parseOptionalNumber (ub_height body)\<rparr>
                in case sendMessageAndBroadcast newId now (c_id chat) (u_id user)
                          (u_name user) kind text (Some media) (store s) of
                     Inl e \<Rightarrow> (ResponseError 400 e, [], s)
                   | Inr (message, emitted, data') \<Rightarrow>
                       (ResponseCreated message, emitted, s\<lparr>store := data'\<rparr>))))"

definition open_chat ::
  "sock_user \<Rightarrow> jsstr \<Rightarrow> server \<Rightarrow> ack \<times> (string \<times> 'p event) list \<times> server" where
  "open_chat user payloadChatId s =
     (let chatId = trim (str_or_empty payloadChatId)
      in if chatId = [] then (AckError InvalidArgument_NoChatId, [], s)
         else (case ensureChatAccess chatId (su_id user) (store s) of
                 Inl e \<Rightarrow> (AckError e, [], s)
               | Inr chat \<Rightarrow>
                   (let data' = markChatAsRead chatId (su_id user) (store s)
                    in (AckOk, emitChatUpdated chatId data', s\<lparr>store := data'\<rparr>))))"

section \<open>The server: calls\<close>

definition emitCallEvent :: "call \<Rightarrow> 'p event \<Rightarrow> (string \<times> 'p event) list" where
  "emitCallEvent call ev = map (\<lambda>userId. (user_room userId, ev)) (call_participantIds call)"

definition createCall ::
  "string \<Rightarrow> string \<Rightarrow> string \<Rightarrow> sock_user \<Rightarrow> string \<Rightarrow> server \<Rightarrow> error + (call \<times> server)" where
  "createCall newId now chatId caller kind s =
     (case getChatById chatId (store s) of
        None \<Rightarrow> Inl NotFound_Chat
      | Some chat \<Rightarrow>
          (let call =
                 \<lparr>call_id = newId,
                  call_chatId = chatId,
                  call_kind = (if kind = ''video'' then ''video'' else ''audio''),
                  call_callerId = su_id caller,
                  call_callerName = su_name caller,
                  call_participantIds = c_participantIds chat,
                  call_roomUrl = buildWebCallUrl newId kind,
                  call_status = ''ringing'',
                  call_createdAt = now\<rparr>
           in Inr (call, s\<lparr>activeCalls := AList.update newId call (activeCalls s)\<rparr>)))"

definition getCallById :: "string \<Rightarrow> server \<Rightarrow> call option" where
  "getCallById callId s = map_of (activeCalls s) callId"

definition endCall ::
  "string \<Rightarrow> string \<Rightarrow> string option \<Rightarrow> server
     \<Rightarrow> call option \<times> (string \<times> 'p event) list \<times> server" where
  "endCall callId reason endedByUserId s =
     (case getCallById callId s of
        None \<Rightarrow> (None, [], s)
      | Some call \<Rightarrow>
          (Some call,
           emitCallEvent call
             (CallEnded \<lparr>ce_callId = call_id call, ce_chatId = call_chatId call,
                         ce_reason = (if reason \<noteq> [] then reason else ''ended''),
                         ce_endedByUserId = endedByUserId\<rparr>),
           s\<lparr>activeCalls := AList.delete callId (activeCalls s)\<rparr>))"

definition call_invite ::
  "string \<Rightarrow> string \<Rightarrow> sock_user \<Rightarrow> jsstr \<Rightarrow> jsstr \<Rightarrow> server
     \<Rightarrow> ack \<times> (string \<times> 'p event) list \<times> server" where
  "call_invite newId now user payloadChatId payloadKind s =
     (let chatId = trim (str_or_empty payloadChatId);
          kind = (if toLowerCase (if str_or_empty payloadKind \<noteq> [] then str_or_empty payloadKind
                                  else ''audio'') = ''video''
                  then ''video'' else ''audio'')
      in if chatId = [] then (AckError InvalidArgument_NoChatId, [], s)
         else (case ensureChatAccess chatId (su_id user) (store s) of
                 Inl e \<Rightarrow> (AckError e, [], s)
               | Inr chat \<Rightarrow>
                   (case createCall newId now chatId user kind s of
                      Inl e \<Rightarrow> (AckError e, [], s)
                    | Inr (call, s') \<Rightarrow>
                        (AckOkCall call,
                         emitCallEvent call
                           (IncomingCall
                              \<lparr>ic_callId = call_id call, ic_chatId = call_chatId call,
                               ic_fromUserId = su_id user, ic_fromUserName = su_name user,
                               ic_kind = call_kind call, ic_roomUrl = call_roomUrl call,
                               ic_createdAt = call_createdAt call\<rparr>),
                         s'))))"

text \<open>\<open>accepted\<close> is \<^verbatim>\<open>Boolean(payload?.accepted)\<close>. Accepting assigns the status of the
  call object, which stays in the registry under the key it was found by.\<close>

definition call_answer ::
  "sock_user \<Rightarrow> jsstr \<Rightarrow> bool \<Rightarrow> server \<Rightarrow> ack \<times> (string \<times> 'p event) list \<times> server" where
  "call_answer user payloadCallId accepted s =
     (let callId = trim (str_or_empty payloadCallId)
      in case getCallById callId s of
           None \<Rightarrow> (AckError NotFound_Call, [], s)
         | Some call \<Rightarrow>
             if su_id user \<notin> set (call_participantIds call)
             then (AckError Forbidden_Call, [], s)
             else if \<not> accepted
             then (AckOk,
                   emitCallEvent call
                     (CallAnswered
                        \<lparr>ca_callId = call_id call, ca_chatId = call_chatId call,
                         ca_accepted = False, ca_answeredByUserId = su_id user,
                         ca_answeredByName = su_name user, ca_roomUrl = None,
                         ca_kind = None\<rparr>),
                   s\<lparr>activeCalls := AList.delete (call_id call) (activeCalls s)\<rparr>)
             else (let call' = call\<lparr>call_status := ''active''\<rparr>
                   in (AckOk,
                       emitCallEvent call'
                         (CallAnswered
                            \<lparr>ca_callId = call_id call', ca_chatId = call_chatId call',
                             ca_accepted = True, ca_answeredByUserId = su_id user,
                             ca_answeredByName = su_name user,
                             ca_roomUrl = Some (call_roomUrl call'),
                             ca_kind = Some (call_kind call')\<rparr>),
                       s\<lparr>activeCalls := AList.update callId call' (activeCalls s)\<rparr>)))"

definition call_end ::
  "sock_user \<Rightarrow> jsstr \<Rightarrow> server \<Rightarrow> ack \<times> (string \<times> 'p event) list \<times> server" where
  "call_end user payloadCallId s =
     (let callId = trim (str_or_empty payloadCallId)
      in case getCallById callId s of
           None \<Rightarrow> (AckError NotFound_Call, [], s)
         | Some call \<Rightarrow>
             if su_id user \<notin> set (call_participantIds call)
             then (AckError Forbidden_Call, [], s)
             else (case endCall callId ''ended'' (Some (su_id user)) s of
                     (ended, emitted, s') \<Rightarrow> (AckOk, emitted, s')))"

record 'p relay_payload =
  rp_callId :: jsstr
  rp_toUserId :: jsstr
  rp_data :: 'p  \<comment> \<open>\<^verbatim>\<open>payload?.sdp\<close> or \<^verbatim>\<open>payload?.candidate\<close>\<close>

definition webrtc_offer ::
  "sock_user \<Rightarrow> 'p relay_payload \<Rightarrow> server \<Rightarrow> ack \<times> (string \<times> 'p event) list \<times> server" where
  "webrtc_offer user payload s =
     (let callId = trim (str_or_empty (rp_callId payload));
          toUserId = trim (str_or_empty (rp_toUserId payload))
      in case getCallById callId s of
           None \<Rightarrow> (AckError NotFound_Call, [], s)
         | Some call \<Rightarrow>
             if su_id user \<notin> set (call_participantIds call)
                \<or> toUserId \<notin> set (call_participantIds call)
             then (AckError Forbidden_Call, [], s)
             else (AckOk,
                   [(user_room toUserId,
                     WebrtcOffer \<lparr>rl_callId = callId, rl_fromUserId = su_id user,
                                  rl_payload = rp_data payload\<rparr>)],
                   s))"

definition webrtc_answer ::
  "sock_user \<Rightarrow> 'p relay_payload \<Rightarrow> server \<Rightarrow> ack \<times> (string \<times> 'p event) list \<times> server" where
  "webrtc_answer user payload s =
     (let callId = trim (str_or_empty (rp_callId payload));
          toUserId = trim (str_or_empty (rp_toUserId payload))
      in case getCallById callId s of
           None \<Rightarrow> (AckError NotFound_Call, [], s)
         | Some call \<Rightarrow>
             if su_id user \<notin> set (call_participantIds call)
                \<or> toUserId \<notin> set (call_participantIds call)
             then (AckError Forbidden_Call, [], s)
             else (AckOk,
                   [(user_room toUserId,
                     WebrtcAnswer \<lparr>rl_callId = callId, rl_fromUserId = su_id user,
                                   rl_payload = rp_data payload\<rparr>)],
                   s))"

definition webrtc_ice_candidate ::
  "sock_user \<Rightarrow> 'p relay_payload \<Rightarrow> server \<Rightarrow> ack \<times> (string \<times> 'p event) list \<times> server" where
  "webrtc_ice_candidate user payload s =
     (let callId = trim (str_or_empty (rp_callId payload));
          toUserId = trim (str_or_empty (rp_toUserId payload))
      in case getCallById callId s of
           None \<Rightarrow> (AckError NotFound_Call, [], s)
         | Some call \<Rightarrow>
             if su_id user \<notin> set (call_participantIds call)
                \<or> toUserId \<notin> set (call_participantIds call)
             then (AckError Forbidden_Call, [], s)
             else (AckOk,
                   [(user_room toUserId,
                     WebrtcIceCandidate \<lparr>rl_callId = callId, rl_fromUserId = su_id user,
                                         rl_payload = rp_data payload\<rparr>)],
                   s))"

text \<open>The loop of the disconnect handler over the calls of the user, which were
  collected before the first of them is ended.\<close>

fun endCalls ::
  "string \<Rightarrow> call list \<Rightarrow> server \<Rightarrow> (string \<times> 'p event) list \<times> server" where
  "endCalls userId [] s = ([], s)"
| "endCalls userId (call # calls) s =
     (let (emitted, s') =
            (if call_status call = ''ringing''
             then (case endCall (call_id call) ''missed'' (Some userId) s of
                     (ended, emitted, s') \<Rightarrow> (emitted, s'))
             else if call_status call = ''active''
             then (case endCall (call_id call) ''ended'' (Some userId) s of
                     (ended, emitted, s') \<Rightarrow> (emitted, s'))
             else ([], s));
          (rest, s'') = endCalls userId calls s'
      in (emitted @ rest, s''))"

definition disconnect :: "sock_user \<Rightarrow> server \<Rightarrow> (string \<times> 'p event) list \<times> server" where
  "disconnect user s =
     endCalls (su_id user)
       (filter (\<lambda>call. su_id user \<in> set (call_participantIds call)) (map snd (activeCalls s)))
       s"

text \<open>The commands of a connection, and a run of commands from any connections, each
  with the user of its connection and the id and time stamp it may draw.\<close>

datatype 'p command =
    SendMessage send_payload
  | OpenChat jsstr
  | CallInvite jsstr jsstr
  | CallAnswer jsstr bool
  | CallEnd jsstr
  | RelayOffer "'p relay_payload"
  | RelayAnswer "'p relay_payload"
  | RelayIceCandidate "'p relay_payload"
  | Disconnect

fun handle ::
  "string \<Rightarrow> string \<Rightarrow> sock_user \<Rightarrow> 'p command \<Rightarrow> server
     \<Rightarrow> ack option \<times> (string \<times> 'p event) list \<times> server" where
  "handle newId now user (SendMessage payload) s =
     (case send_message newId now user payload s of (a, es, s') \<Rightarrow> (Some a, es, s'))"
| "handle newId now user (OpenChat chatId) s =
     (case open_chat user chatId s of (a, es, s') \<Rightarrow> (Some a, es, s'))"
| "handle newId now user (CallInvite chatId kind) s =
     (case call_invite newId now user chatId kind s of (a, es, s') \<Rightarrow> (Some a, es, s'))"
| "handle newId now user (CallAnswer callId accepted) s =
     (case call_answer user callId accepted s of (a, es, s') \<Rightarrow> (Some a, es, s'))"
| "handle newId now user (CallEnd callId) s =
     (case call_end user callId s of (a, es, s') \<Rightarrow> (Some a, es, s'))"
| "handle newId now user (RelayOffer payload) s =
     (case webrtc_offer user payload s of (a, es, s') \<Rightarrow> (Some a, es, s'))"
| "handle newId now user (RelayAnswer payload) s =
     (case webrtc_answer user payload s of (a, es, s') \<Rightarrow> (Some a, es, s'))"
| "handle newId now user (RelayIceCandidate payload) s =
     (case webrtc_ice_candidate user payload s of (a, es, s') \<Rightarrow> (Some a, es, s'))"
| "handle newId now user Disconnect s =
     (case disconnect user s of (es, s') \<Rightarrow> (None, es, s'))"

fun run :: "(string \<times> string \<times> sock_user \<times> 'p command) list \<Rightarrow> server \<Rightarrow> server" where
  "run [] s = s"
| "run ((newId, now, user, cmd) # evs) s = run evs (snd (snd (handle newId now user cmd s)))"

text \<open>Every call of the registry is stored under its own id, as \<^verbatim>\<open>createCall\<close> stores it.\<close>

definition calls_wf :: "server \<Rightarrow> bool" where
  "calls_wf s = list_all (\<lambda>(k, call). call_id call = k) (activeCalls s)"

text \<open>The route that lists the messages of a chat, from the point where the user of the
  token has been found.\<close>

definition get_messages :: "user \<Rightarrow> string \<Rightarrow> server \<Rightarrow> (nat \<times> error) + message list" where
  "get_messages user chatId s =
     (case ensureChatAccess chatId (u_id user) (store s) of
        Inl e \<Rightarrow> Inl (if e = NotFound_Chat then 404 else 403, e)
      | Inr chat \<Rightarrow> Inr (listMessagesForChat (c_id chat) 300 (store s)))"

section \<open>Notions of the specification\<close>

text \<open>The most recent \<open>n\<close> elements of a list in creation order, still in that order.\<close>

definition most_recent :: "nat \<Rightarrow> 'a list \<Rightarrow> 'a list" where
  "most_recent n xs = rev (take n (rev xs))"

text \<open>What the store needs of \<^verbatim>\<open>localeCompare\<close> on two ids: they are distinct, the
  comparator is consistent on them and it does not rank them equal. A collation separates
  any two of the ids \<^verbatim>\<open>randomUUID\<close> draws; it ranks equal some distinct strings, such as
  two that differ by a soft hyphen U+00AD.\<close>

definition separated :: "(string \<Rightarrow> string \<Rightarrow> int) \<Rightarrow> string \<Rightarrow> string \<Rightarrow> bool" where
  "separated lc a b =
     (a \<noteq> b \<and> lc a b \<noteq> 0 \<and> (lc a b < 0) = (0 < lc b a) \<and> (lc b a < 0) = (0 < lc a b))"


text \<open>The predicate \<^verbatim>\<open>findDirectChat\<close> searches with, for a normalized pair.\<close>

definition matches :: "(string \<Rightarrow> string \<Rightarrow> int) \<Rightarrow> string list \<Rightarrow> chat \<Rightarrow> bool" where
  "matches lc pair chat =
     (if c_type chat \<noteq> ''direct'' then False
      else if length (c_participantIds chat) \<noteq> 2 then False
      else (let ids = sort_js lc (c_participantIds chat)
            in ids ! 0 = pair ! 0 \<and> ids ! 1 = pair ! 1))"

text \<open>The invariant of the chats of a store: every chat is a direct chat of two users
  that the comparator separates, and no two chats have the same pair of users.\<close>

definition chats_inv :: "(string \<Rightarrow> string \<Rightarrow> int) \<Rightarrow> dataset \<Rightarrow> bool" where
  "chats_inv lc data =
     ((\<forall>c \<in> set (chats data). c_type c = ''direct'' \<and>
          (\<exists>x y. separated lc x y \<and> c_participantIds c = [x, y]))
      \<and> distinct (map (\<lambda>c. set (c_participantIds c)) (chats data)))"

section \<open>Concrete stores and servers\<close>

definition user_a1 :: user where
  "user_a1 = \<lparr>u_id = ''a1'', u_name = ''Ann'', u_login = ''ann'', u_email = None,
               u_passwordHash = None, u_createdAt = ''t0''\<rparr>"

definition user_b1 :: user where
  "user_b1 = \<lparr>u_id = ''b1'', u_name = ''Bob'', u_login = ''bob'', u_email = None,
               u_passwordHash = None, u_createdAt = ''t0''\<rparr>"

definition chat_c1 :: chat where
  "chat_c1 = \<lparr>c_id = ''c1'', c_type = ''direct'', c_participantIds = [''a1'', ''b1''],
               c_createdAt = ''t0'', c_updatedAt = ''t0''\<rparr>"

definition chat_c2 :: chat where
  "chat_c2 = \<lparr>c_id = ''c2'', c_type = ''direct'', c_participantIds = [''a1'', ''z9''],
               c_createdAt = ''t0'', c_updatedAt = ''t0''\<rparr>"




definition data1 :: dataset where
  "data1 = \<lparr>users = [user_a1, user_b1], chats = [chat_c1], messages = []\<rparr>"

definition ann :: sock_user where
  "ann = \<lparr>su_id = ''a1'', su_name = ''Ann'', su_login = ''ann'', su_email = None\<rparr>"

definition bob :: sock_user where
  "bob = \<lparr>su_id = ''b1'', su_name = ''Bob'', su_login = ''bob'', su_email = None\<rparr>"

definition zed :: sock_user where
  "zed = \<lparr>su_id = ''z9'', su_name = ''Zed'', su_login = ''zed'', su_email = None\<rparr>"

definition server1 :: server where
  "server1 = \<lparr>store = data1, activeCalls = []\<rparr>"

definition photo :: raw_media where
  "photo = \<lparr>rm_url = Str ''/uploads/p.png'', rm_fileName = Str ''p.png'',
             rm_mimeType = Str ''image/png'', rm_size = Num 10, rm_durationSec = NumUndefined,
             rm_width = NumUndefined, rm_height = NumUndefined\<rparr>"

definition photo_payload :: send_payload where
  "photo_payload = \<lparr>sp_chatId = Str ''c1'', sp_kind = Undefined, sp_text = Str [],
                     sp_media = Some photo\<rparr>"

definition photo_file :: upload_file where
  "photo_file = \<lparr>uf_filename = ''17-p.png'', uf_originalname = ''p.png'',
                  uf_mimetype = ''image/png'', uf_size = 10\<rparr>"

definition photo_body :: upload_body where
  "photo_body = \<lparr>ub_caption = Undefined, ub_kind = Undefined, ub_durationSec = NumUndefined,
                  ub_width = NumUndefined, ub_height = NumUndefined\<rparr>"

definition hi_args :: add_args where
  "hi_args = \<lparr>a_chatId = ''c1'', a_senderId = ''a1'', a_senderName = ''Ann'',
               a_text = Str ''hi'', a_kind = Str ''text'', a_media = None\<rparr>"

definition sticker_args :: add_args where
  "sticker_args = \<lparr>a_chatId = ''c1'', a_senderId = ''a1'', a_senderName = ''Ann'',
                    a_text = Str [], a_kind = Str ''sticker'', a_media = Some photo\<rparr>"

definition old_message :: message where
  "old_message = \<lparr>m_id = ''m0'', m_chatId = ''c2'', m_senderId = ''z9'', m_senderName = ''Zed'',
                   m_kind = ''text'', m_text = ''old'', m_media = None, m_createdAt = ''t0'',
                   m_readBy = Some [''z9'']\<rparr>"

definition full_data :: dataset where
  "full_data = \<lparr>users = [user_a1, user_b1], chats = [chat_c1, chat_c2],
                 messages = replicate 3000 old_message\<rparr>"

definition message_m1 :: message where
  "message_m1 = \<lparr>m_id = ''m1'', m_chatId = ''c1'', m_senderId = ''a1'', m_senderName = ''Ann'',
                  m_kind = ''text'', m_text = ''hi'', m_media = None, m_createdAt = ''t1'',
                  m_readBy = Some [''a1'']\<rparr>"

definition message_m2 :: message where
  "message_m2 = \<lparr>m_id = ''m2'', m_chatId = ''c1'', m_senderId = ''b1'', m_senderName = ''Bob'',
                  m_kind = ''text'', m_text = ''yo'', m_media = None, m_createdAt = ''t2'',
                  m_readBy = Some [''b1'']\<rparr>"

definition data2 :: dataset where
  "data2 = \<lparr>users = [user_a1, user_b1], chats = [chat_c1],
             messages = [message_m1, message_m2]\<rparr>"

definition server2 :: server where
  "server2 = \<lparr>store = data2, activeCalls = []\<rparr>"

definition call_k1 :: call where
  "call_k1 = \<lparr>call_id = ''k1'', call_chatId = ''c1'', call_kind = ''audio'',
               call_callerId = ''a1'', call_callerName = ''Ann'',
               call_participantIds = [''a1'', ''b1''],
               call_roomUrl = buildWebCallUrl ''k1'' ''audio'',
               call_status = ''ringing'', call_createdAt = ''t1''\<rparr>"

definition call_k1_active :: call where
  "call_k1_active = call_k1\<lparr>call_status := ''active''\<rparr>"

definition server_ringing :: server where
  "server_ringing = \<lparr>store = data1, activeCalls = [(''k1'', call_k1)]\<rparr>"

definition server_active :: server where
  "server_active = \<lparr>store = data1, activeCalls = [(''k1'', call_k1_active)]\<rparr>"

definition later_events :: "(string \<times> string \<times> sock_user \<times> string command) list" where
  "later_events =
     [(''k2'', ''t2'', ann, CallInvite (Str ''c1'') (Str ''video'')),
      (''k3'', ''t3'', bob, CallAnswer (Str ''k2'') True),
      (''k4'', ''t4'', ann, Disconnect)]"

text \<open>An offer whose call id is padded with spaces and whose recipient is followed by a
  no-break space.\<close>

definition offer_to_bob :: "string relay_payload" where
  "offer_to_bob = \<lparr>rp_callId = Str '' k1 '', rp_toUserId = Str (''b1'' @ [CHR 0xA0]),
                    rp_data = ''sdp''\<rparr>"

definition offer_to_zed :: "string relay_payload" where
  "offer_to_zed = \<lparr>rp_callId = Str ''k1'', rp_toUserId = Str ''z9'', rp_data = ''sdp''\<rparr>"

section \<open>Properties of the store and of the server\<close>

lemma length_sort_js [simp]: "length (sort_js cmp xs) = length xs"
proof -
  have ins: "\<And>x ys. length (insert_js cmp x ys) = Suc (length ys)"
    subgoal for x ys by (induction ys) auto
    done
  show ?thesis unfolding sort_js_def by (induction xs) (auto simp: ins)
qed

lemma set_insert_js [simp]: "set (insert_js cmp x ys) = insert x (set ys)"
  by (induction ys) auto

lemma set_sort_js [simp]: "set (sort_js cmp xs) = set xs"
  unfolding sort_js_def by (induction xs) auto

lemma slice_last_append:
  "slice_last n (slice_last n xs @ ys) = slice_last n (xs @ ys)" if "0 < n"
proof (cases "length xs \<le> n")
  case True
  then show ?thesis by (simp add: slice_last_def)
next
  case False
  then have "length (drop (length xs - n) xs) = n" by simp
  then show ?thesis using False that
    by (simp add: slice_last_def add.commute)
qed

lemma length_slice_last: "0 < n \<Longrightarrow> length (slice_last n xs) = min n (length xs)"
  by (auto simp: slice_last_def)

lemma slice_last_all: "length xs \<le> n \<Longrightarrow> slice_last n xs = xs"
  by (auto simp: slice_last_def)

lemma find_update_first:
  "find P (update_first P f xs) = map_option f (find P xs)" if "\<And>x. P x \<Longrightarrow> P (f x)"
  using that by (induction xs) auto

lemma addMessage_cases:
  "addMessage newId now a data =
     (if getChatById (a_chatId a) data = None then Inl NotFound_Chat
      else Inr (normalizeMessage (newMessage newId now a),
                data\<lparr>chats := update_first (\<lambda>c. c_id c = a_chatId a)
                                 (\<lambda>c. c\<lparr>c_updatedAt := now\<rparr>) (chats data),
                      messages := slice_last MAX_MESSAGES (messages data @ [newMessage newId now a])\<rparr>))"
proof -
  have t: "m_createdAt (newMessage newId now a) = now"
    by (simp add: newMessage_def Let_def)
  show ?thesis
    by (auto simp: addMessage_def getChatById_def Let_def t slice_last_all split: option.splits)
qed

lemma normalizeMessage_createdAt [simp]: "m_createdAt (normalizeMessage m) = m_createdAt m"
  by (simp add: normalizeMessage_def Let_def)

lemma newMessage_createdAt [simp]: "m_createdAt (newMessage newId now a) = now"
  by (simp add: newMessage_def Let_def)

text \<open>Claim C6. \<^verbatim>\<open>addMessage\<close> fails with the error of a missing chat exactly when no chat
  has the id, it fails with no other error, and a failure leaves the data file as it was;
  when it succeeds, the chat with the id has the creation time of the new message as its
  \<^verbatim>\<open>updatedAt\<close>.\<close>

theorem addMessage_NotFound:
  "(addMessage newId now a data = Inl NotFound_Chat \<longleftrightarrow> getChatById (a_chatId a) data = None)
   \<and> (\<forall>e. addMessage newId now a data = Inl e \<longrightarrow>
          e = NotFound_Chat \<and> persisted data (addMessage newId now a data) = data)
   \<and> (\<forall>msg data'. addMessage newId now a data = Inr (msg, data') \<longrightarrow>
          (\<exists>c. getChatById (a_chatId a) data' = Some c \<and> c_updatedAt c = m_createdAt msg))"
proof (cases "getChatById (a_chatId a) data")
  case None
  then show ?thesis by (simp add: addMessage_cases persisted_def)
next
  case (Some c)
  have "find (\<lambda>c. c_id c = a_chatId a)
          (update_first (\<lambda>c. c_id c = a_chatId a) (\<lambda>c. c\<lparr>c_updatedAt := now\<rparr>) (chats data))
        = Some (c\<lparr>c_updatedAt := now\<rparr>)"
    using Some by (subst find_update_first) (auto simp: getChatById_def)
  with Some show ?thesis
    by (auto simp: addMessage_cases getChatById_def)
qed

lemma persisted_addMessage:
  "persisted data (addMessage newId now a data) =
     (if getChatById (a_chatId a) data = None then data
      else data\<lparr>chats := update_first (\<lambda>c. c_id c = a_chatId a)
                                 (\<lambda>c. c\<lparr>c_updatedAt := now\<rparr>) (chats data),
                messages := slice_last MAX_MESSAGES (messages data @ [newMessage newId now a])\<rparr>)"
  by (simp add: addMessage_cases persisted_def)

lemma getChatById_update_first:
  "getChatById k (d\<lparr>chats := update_first (\<lambda>c. c_id c = j) (\<lambda>c. c\<lparr>c_updatedAt := t\<rparr>) (chats d), messages := ms\<rparr>) = None
   \<longleftrightarrow> getChatById k d = None"
proof -
  have "\<And>xs. (find (\<lambda>c. c_id c = k) (update_first (\<lambda>c. c_id c = j) (\<lambda>c. c\<lparr>c_updatedAt := t\<rparr>) xs) = None)
        = (find (\<lambda>c. c_id c = k) xs = None)"
    subgoal for xs by (induction xs) auto
    done
  then show ?thesis by (simp add: getChatById_def)
qed

lemma created_persisted:
  "created (persisted data (addMessage newId now a data)) rs = created data rs"
  by (simp add: created_def persisted_addMessage getChatById_update_first del: not_None_eq)

lemma messages_addMessages:
  "messages (addMessages rs data) =
     (if created data rs = [] then messages data
      else slice_last MAX_MESSAGES (messages data @ created data rs))"
proof (induction rs arbitrary: data)
  case Nil
  then show ?case by (simp add: created_def)
next
  case (Cons r rs)
  obtain newId now a where r: "r = (newId, now, a)" by (cases r) auto
  have pos: "0 < MAX_MESSAGES" by (simp add: MAX_MESSAGES_def)
  show ?case
  proof (cases "getChatById (a_chatId a) data = None")
    case True
    then have "persisted data (addMessage newId now a data) = data"
      by (simp add: persisted_addMessage)
    with True Cons.IH[of data] show ?thesis
      by (simp add: r created_def)
  next
    case False
    let ?d = "persisted data (addMessage newId now a data)"
    have m: "messages ?d = slice_last MAX_MESSAGES (messages data @ [newMessage newId now a])"
      using False by (simp add: persisted_addMessage del: not_None_eq)
    have c: "created data (r # rs) = newMessage newId now a # created data rs"
      using False by (simp add: created_def r)
    have "messages (addMessages (r # rs) data) = messages (addMessages rs ?d)"
      by (simp add: r)
    also have "\<dots> = (if created data rs = [] then messages ?d
                       else slice_last MAX_MESSAGES (messages ?d @ created data rs))"
      using Cons.IH[of ?d] by (simp add: created_persisted)
    also have "\<dots> = slice_last MAX_MESSAGES (messages data @ created data (r # rs))"
      by (simp add: m c slice_last_append[OF pos])
    finally show ?thesis by (simp add: c)
  qed
qed

lemma slice_last_most_recent: "0 < n \<Longrightarrow> slice_last n xs = most_recent n xs"
  by (simp add: slice_last_def most_recent_def rev_take)

text \<open>Claim C3. From a store that holds at most \<^verbatim>\<open>MAX_MESSAGES\<close> messages, as every
  reachable store does, any sequence of \<^verbatim>\<open>addMessage\<close> calls to any chats leaves exactly the
  most recent \<^verbatim>\<open>MAX_MESSAGES\<close> of the messages held before followed by the messages
  created, in creation order, whichever chats they belong to: at most \<^verbatim>\<open>MAX_MESSAGES\<close> messages, and
  exactly that many once more have been inserted.\<close>

theorem retention:
  assumes "length (messages data) \<le> MAX_MESSAGES"
  shows "messages (addMessages rs data)
           = most_recent MAX_MESSAGES (messages data @ created data rs)
       \<and> length (messages (addMessages rs data))
           = min MAX_MESSAGES (length (messages data) + length (created data rs))
       \<and> length (messages (addMessages rs data)) \<le> MAX_MESSAGES"
proof -
  have pos: "0 < MAX_MESSAGES" by (simp add: MAX_MESSAGES_def)
  have 1: "messages (addMessages rs data)
             = slice_last MAX_MESSAGES (messages data @ created data rs)"
    using assms by (simp add: messages_addMessages slice_last_all)
  then have 2: "length (messages (addMessages rs data))
             = min MAX_MESSAGES (length (messages data) + length (created data rs))"
    by (simp add: length_slice_last[OF pos])
  from 1 2 show ?thesis by (simp add: slice_last_most_recent[OF pos])
qed

lemma markMessage_unchanged: "\<not> snd (markMessage c u m) \<Longrightarrow> fst (markMessage c u m) = m"
  by (auto simp: markMessage_def split: option.splits if_splits)

lemma markLoop_eq:
  "markLoop c u ms = (map (\<lambda>m. fst (markMessage c u m)) ms, \<exists>m\<in>set ms. snd (markMessage c u m))"
  by (induction ms) (auto simp: case_prod_unfold Let_def)

lemma messages_markChatAsRead:
  "messages (markChatAsRead c u data) = map (\<lambda>m. fst (markMessage c u m)) (messages data)"
proof (cases "\<exists>m\<in>set (messages data). snd (markMessage c u m)")
  case True
  then show ?thesis by (simp add: markChatAsRead_def markLoop_eq)
next
  case False
  then have "map (\<lambda>m. fst (markMessage c u m)) (messages data) = messages data"
    by (simp add: markMessage_unchanged map_idI)
  with False show ?thesis by (simp add: markChatAsRead_def markLoop_eq)
qed

lemma markChatAsRead_eq:
  "markChatAsRead c u data = data\<lparr>messages := map (\<lambda>m. fst (markMessage c u m)) (messages data)\<rparr>"
proof (cases "\<exists>m\<in>set (messages data). snd (markMessage c u m)")
  case True
  then show ?thesis by (simp add: markChatAsRead_def markLoop_eq)
next
  case False
  then have "map (\<lambda>m. fst (markMessage c u m)) (messages data) = messages data"
    by (simp add: markMessage_unchanged map_idI)
  with False show ?thesis by (simp add: markChatAsRead_def markLoop_eq)
qed

lemma markMessage_idem: "fst (markMessage c u (fst (markMessage c u m))) = fst (markMessage c u m)"
  by (auto simp: markMessage_def split: option.splits)

lemma readers_markMessage:
  "readers (fst (markMessage c u m)) = (if m_chatId m = c then insert u (readers m) else readers m)"
  by (auto simp: markMessage_def readers_def split: option.splits)

lemma markMessage_fields [simp]:
  "m_chatId (fst (markMessage c u m)) = m_chatId m"
  "m_senderId (fst (markMessage c u m)) = m_senderId m"
  "m_id (fst (markMessage c u m)) = m_id m"
  by (auto simp: markMessage_def split: option.splits)

lemma computeUnread_spec: "computeUnreadForChat data c u = unread_spec data c u"
proof -
  have "(\<lambda>m. if m_chatId m \<noteq> c then False
        else if m_senderId m = u then False
        else (case m_readBy m of None \<Rightarrow> True | Some r \<Rightarrow> u \<notin> set r))
      = (\<lambda>m. m_chatId m = c \<and> m_senderId m \<noteq> u \<and> u \<notin> readers m)"
    by (auto simp: fun_eq_iff readers_def split: option.splits)
  then show ?thesis by (simp add: computeUnreadForChat_def unread_spec_def)
qed

lemma unread_after_mark:
  "unread_spec (markChatAsRead c' u' data) c u \<le> unread_spec data c u"
proof -
  have "length (filter (\<lambda>m. m_chatId m = c \<and> m_senderId m \<noteq> u \<and> u \<notin> readers m)
            (map (\<lambda>m. fst (markMessage c' u' m)) ms))
        \<le> length (filter (\<lambda>m. m_chatId m = c \<and> m_senderId m \<noteq> u \<and> u \<notin> readers m) ms)" for ms
    by (induction ms) (auto simp: readers_markMessage)
  then show ?thesis by (simp add: unread_spec_def messages_markChatAsRead)
qed

lemma unread_marked_zero: "unread_spec (markChatAsRead c u data) c u = 0"
  by (simp add: unread_spec_def messages_markChatAsRead filter_empty_conv readers_markMessage)

lemma chatSummary_fields [simp]:
  "s_id (chatSummary data u c) = c_id c"
  "s_unreadCount (chatSummary data u c) = computeUnreadForChat data (c_id c) u"
  by (simp_all add: chatSummary_def Let_def)

lemma set_listChatsForUser:
  "set (listChatsForUser lc u data) =
     chatSummary data u ` {c \<in> set (chats data). u \<in> set (c_participantIds c)}"
  by (auto simp: listChatsForUser_def isUserInChat_def)

text \<open>Claim C4. Every summary of \<^verbatim>\<open>listChatsForUser(U)\<close> reports as its unread count the
  number of messages of its chat authored by someone other than U whose readers do not
  contain U, and every chat of U has a summary; after \<^verbatim>\<open>markChatAsRead(c, U)\<close> that count
  is zero for c; and no read operation increases the count of any chat for any user.\<close>

theorem unread_count:
  "(\<forall>s \<in> set (listChatsForUser lc u data). s_unreadCount s = unread_spec data (s_id s) u)
   \<and> (\<forall>c \<in> set (chats data). u \<in> set (c_participantIds c) \<longrightarrow>
         (\<exists>s \<in> set (listChatsForUser lc u data). s_id s = c_id c))
   \<and> unread_spec (markChatAsRead c u data) c u = 0
   \<and> (\<forall>s \<in> set (listChatsForUser lc u (markChatAsRead c u data)).
         s_id s = c \<longrightarrow> s_unreadCount s = 0)
   \<and> (\<forall>op c' u'. unread_spec (after_read op data) c' u' \<le> unread_spec data c' u')"
proof -
  have 1: "\<forall>s \<in> set (listChatsForUser lc u d). s_unreadCount s = unread_spec d (s_id s) u" for d
    by (auto simp: set_listChatsForUser computeUnread_spec)
  have 2: "\<forall>c \<in> set (chats data). u \<in> set (c_participantIds c) \<longrightarrow>
         (\<exists>s \<in> set (listChatsForUser lc u data). s_id s = c_id c)"
    by (auto simp: set_listChatsForUser)
  have 3: "unread_spec (markChatAsRead c u data) c u = 0"
    by (rule unread_marked_zero)
  have 4: "\<forall>s \<in> set (listChatsForUser lc u (markChatAsRead c u data)).
         s_id s = c \<longrightarrow> s_unreadCount s = 0"
    using 1[of "markChatAsRead c u data"] 3 by auto
  have 5: "unread_spec (after_read op data) c' u' \<le> unread_spec data c' u'" for op c' u'
    by (cases op) (simp_all add: unread_after_mark)
  from 1 2 3 4 5 show ?thesis by blast
qed

lemma last_slice_last: "xs \<noteq> [] \<Longrightarrow> 0 < n \<Longrightarrow> last (slice_last n xs) = last xs"
  by (simp add: slice_last_def)

lemma slice_last_suffix: "\<exists>k. slice_last n xs = drop k xs"
  by (cases "n = 0") (auto simp: slice_last_def intro: exI[of _ 0])

text \<open>Claim C5. The message \<^verbatim>\<open>addMessage\<close> stores, and the one it returns, is read by
  exactly its sender; \<^verbatim>\<open>markChatAsRead\<close> applied twice leaves the store that it leaves
  applied once; it keeps every message in its place and the readers of each message only
  grow; and the other operations of the store change the readers of no message that they
  keep.\<close>

theorem readBy_grows:
  "(\<forall>msg data'. addMessage newId now a data = Inr (msg, data') \<longrightarrow>
       m_id (last (messages data')) = newId
     \<and> m_readBy (last (messages data')) = Some [a_senderId a]
     \<and> m_readBy msg = Some [a_senderId a])
   \<and> markChatAsRead c u (markChatAsRead c u data) = markChatAsRead c u data
   \<and> length (messages (markChatAsRead c u data)) = length (messages data)
   \<and> (\<forall>i < length (messages data).
         m_id (messages (markChatAsRead c u data) ! i) = m_id (messages data ! i)
       \<and> readers (messages data ! i) \<subseteq> readers (messages (markChatAsRead c u data) ! i))
   \<and> (\<exists>k. messages (persisted data (addMessage newId now a data))
            = drop k (messages data @ [newMessage newId now a])
          \<or> messages (persisted data (addMessage newId now a data)) = messages data)
   \<and> messages (persisted data (createOrGetDirectChat lc cid t1 t2 userA userB data))
       = messages data
   \<and> messages (persisted data (createUser uid t0 name login email pw data)) = messages data"
proof -
  have pos: "0 < MAX_MESSAGES" by (simp add: MAX_MESSAGES_def)
  have 1: "\<forall>msg data'. addMessage newId now a data = Inr (msg, data') \<longrightarrow>
       m_id (last (messages data')) = newId
     \<and> m_readBy (last (messages data')) = Some [a_senderId a]
     \<and> m_readBy msg = Some [a_senderId a]"
    by (auto simp: addMessage_cases last_slice_last[OF _ pos] newMessage_def normalizeMessage_def
          Let_def split: if_splits)
  have 2: "markChatAsRead c u (markChatAsRead c u data) = markChatAsRead c u data"
    by (simp add: markChatAsRead_eq markMessage_idem)
  have 3: "length (messages (markChatAsRead c u data)) = length (messages data)"
    by (simp add: messages_markChatAsRead)
  have 4: "\<forall>i < length (messages data).
         m_id (messages (markChatAsRead c u data) ! i) = m_id (messages data ! i)
       \<and> readers (messages data ! i) \<subseteq> readers (messages (markChatAsRead c u data) ! i)"
    by (auto simp: messages_markChatAsRead readers_markMessage)
  have 5: "\<exists>k. messages (persisted data (addMessage newId now a data))
            = drop k (messages data @ [newMessage newId now a])
          \<or> messages (persisted data (addMessage newId now a data)) = messages data"
    using slice_last_suffix[of MAX_MESSAGES "messages data @ [newMessage newId now a]"]
    by (auto simp: persisted_addMessage)
  have 6: "messages (persisted data (createOrGetDirectChat lc cid t1 t2 userA userB data))
       = messages data"
    by (auto simp: persisted_def createOrGetDirectChat_def Let_def split: option.splits)
  have 7: "messages (persisted data (createUser uid t0 name login email pw data)) = messages data"
    by (auto simp: persisted_def createUser_def Let_def split: option.splits)
  from 1 2 3 4 5 6 7 show ?thesis by blast
qed

lemma length_most_recent: "length (most_recent n xs) = min n (length xs)"
  by (simp add: most_recent_def)

lemma map_most_recent: "map f (most_recent n xs) = most_recent n (map f xs)"
  by (simp add: most_recent_def rev_map take_map)

lemma normalizeMessage_id [simp]: "m_id (normalizeMessage m) = m_id m"
  by (simp add: normalizeMessage_def Let_def)

text \<open>Claim C9, as amended. For every limit of at least 1, \<^verbatim>\<open>listMessagesForChat\<close>
  returns the normalized views of exactly the most recent \<open>limit\<close> messages of the chat,
  all of them when there are fewer, in the order of the store, which is the order of
  creation; a limit below 1 is treated as 1; and the route of the server returns the most
  recent 300, at most.\<close>

theorem listMessages_recent:
  "(1 \<le> limit \<longrightarrow>
      listMessagesForChat c limit data
        = map normalizeMessage
            (most_recent (nat limit) (filter (\<lambda>m. m_chatId m = c) (messages data)))
    \<and> map m_id (listMessagesForChat c limit data)
        = most_recent (nat limit) (map m_id (filter (\<lambda>m. m_chatId m = c) (messages data)))
    \<and> length (listMessagesForChat c limit data)
        = min (nat limit) (length (filter (\<lambda>m. m_chatId m = c) (messages data))))
   \<and> (limit < 1 \<longrightarrow> listMessagesForChat c limit data = listMessagesForChat c 1 data)
   \<and> (\<forall>ms. get_messages user c s = Inr ms \<longrightarrow>
         ms = map normalizeMessage
                (most_recent 300 (filter (\<lambda>m. m_chatId m = c) (messages (store s))))
       \<and> length ms \<le> 300)"
proof -
  have a: "1 \<le> limit \<Longrightarrow> listMessagesForChat c limit data
        = map normalizeMessage
            (most_recent (nat limit) (filter (\<lambda>m. m_chatId m = c) (messages data)))" for limit data c
    by (simp add: listMessagesForChat_def slice_last_most_recent max_def)
  have b: "limit < 1 \<Longrightarrow> listMessagesForChat c limit data = listMessagesForChat c 1 data"
    by (simp add: listMessagesForChat_def max_def)
  have c: "c_id chat = c" if "ensureChatAccess c uid d = Inr chat" for chat uid d
  proof -
    have "find P xs = Some x \<Longrightarrow> P x" for P and xs :: "chat list" and x
      by (induction xs) (auto split: if_splits)
    with that show ?thesis
      by (auto simp: ensureChatAccess_def getChatById_def split: option.splits if_splits)
  qed
  have d: "\<forall>ms. get_messages user c s = Inr ms \<longrightarrow>
         ms = map normalizeMessage
                (most_recent 300 (filter (\<lambda>m. m_chatId m = c) (messages (store s))))
       \<and> length ms \<le> 300"
    using c[of "u_id user" "store s"] a[of 300 _ "store s"]
    by (auto simp: get_messages_def length_most_recent split: sum.splits)
  show ?thesis using a[of limit c data] b d
    by (simp add: map_most_recent[symmetric] comp_def length_most_recent)
qed

lemma normalizePair_eq: "normalizePair lc a b = (if 0 < lc a b then [b, a] else [a, b])"
  by (simp add: normalizePair_def sort_js_def)

lemma sort_js_pair: "sort_js lc [a, b] = (if 0 < lc a b then [b, a] else [a, b])"
  by (simp add: sort_js_def)

lemma separatedD: "separated lc a b \<Longrightarrow> (0 < lc a b) \<noteq> (0 < lc b a)"
  unfolding separated_def by linarith

lemma separated_sym: "separated lc a b \<Longrightarrow> separated lc b a"
  unfolding separated_def by (metis less_irrefl linorder_neqE_linordered_idom)

lemma normalizePair_sym:
  "separated lc a b \<Longrightarrow> normalizePair lc b a = normalizePair lc a b"
  using separatedD[of lc a b] by (auto simp: normalizePair_eq)

lemma normalizePair_distinct:
  "a \<noteq> b \<Longrightarrow> normalizePair lc a b ! 0 \<noteq> normalizePair lc a b ! 1"
  by (auto simp: normalizePair_eq)

lemma normalizePair_set: "set (normalizePair lc a b) = {a, b}"
  by (auto simp: normalizePair_eq)

lemma findDirectChat_matches:
  "findDirectChat lc data a b = find (matches lc (normalizePair lc a b)) (chats data)"
proof -
  have "matches lc p = (\<lambda>chat.
            if c_type chat \<noteq> ''direct'' then False
            else if length (c_participantIds chat) \<noteq> 2 then False
            else (let ids = sort_js lc (c_participantIds chat)
                  in ids ! 0 = p ! 0 \<and> ids ! 1 = p ! 1))" for p
    by (rule ext) (simp only: matches_def)
  then show ?thesis by (simp only: findDirectChat_def Let_def)
qed

lemma find_append_new: "find P xs = None \<Longrightarrow> P x \<Longrightarrow> find P (xs @ [x]) = Some x"
  by (induction xs) (auto split: if_splits)

text \<open>What \<^verbatim>\<open>createOrGetDirectChat\<close> does for two ids that the comparator separates.\<close>

lemma createOrGet_cases:
  assumes sep: "separated lc a b"
  shows "createOrGetDirectChat lc newId t1 t2 a b data =
     (case find (matches lc (normalizePair lc a b)) (chats data) of
        Some existing \<Rightarrow> Inr (existing, data)
      | None \<Rightarrow> Inr (\<lparr>c_id = newId, c_type = ''direct'',
                      c_participantIds = normalizePair lc a b,
                      c_createdAt = t1, c_updatedAt = t2\<rparr>,
                     data\<lparr>chats := chats data @
                        [\<lparr>c_id = newId, c_type = ''direct'',
                      c_participantIds = normalizePair lc a b,
                      c_createdAt = t1, c_updatedAt = t2\<rparr>]\<rparr>))"
proof (cases "0 < lc a b")
  case True
  from sep have ne: "a \<noteq> b" by (simp add: separated_def)
  from True separatedD[OF sep]
  have n: "normalizePair lc a b = [b, a]" "normalizePair lc b a = [b, a]"
    by (auto simp: normalizePair_eq)
  show ?thesis using ne
    by (simp add: createOrGetDirectChat_def Let_def findDirectChat_matches n split: option.splits)
next
  case False
  from sep have ne: "a \<noteq> b" by (simp add: separated_def)
  from False have n: "normalizePair lc a b = [a, b]"
    by (auto simp: normalizePair_eq)
  show ?thesis using ne
    by (simp add: createOrGetDirectChat_def Let_def findDirectChat_matches n split: option.splits)
qed

lemma matches_new:
  assumes "separated lc a b"
  shows "matches lc (normalizePair lc a b)
     \<lparr>c_id = newId, c_type = ''direct'', c_participantIds = normalizePair lc a b,
      c_createdAt = t1, c_updatedAt = t2\<rparr>"
proof -
  have "sort_js lc (normalizePair lc a b) = normalizePair lc a b"
    using separatedD[OF assms] by (auto simp: normalizePair_eq sort_js_pair)
  then show ?thesis by (simp add: matches_def normalizePair_eq)
qed

lemma createOrGet_again:
  assumes sep: "separated lc a b"
    and first: "createOrGetDirectChat lc newId t1 t2 a b data = Inr (c, d1)"
  shows "createOrGetDirectChat lc newId' t1' t2' a b d1 = Inr (c, d1)"
proof (cases "find (matches lc (normalizePair lc a b)) (chats data)")
  case None
  then have "find (matches lc (normalizePair lc a b)) (chats d1) = Some c"
    using first matches_new[OF sep] by (auto simp: createOrGet_cases[OF sep] find_append_new)
  then show ?thesis by (simp add: createOrGet_cases[OF sep])
next
  case (Some e)
  with first have "d1 = data" "c = e" by (auto simp: createOrGet_cases[OF sep])
  with Some show ?thesis by (simp add: createOrGet_cases[OF sep])
qed

lemma createOrGet_swap:
  assumes sep: "separated lc a b"
  shows "createOrGetDirectChat lc newId t1 t2 b a data
           = createOrGetDirectChat lc newId t1 t2 a b data"
  by (simp only: createOrGet_cases[OF sep] createOrGet_cases[OF separated_sym[OF sep]]
      normalizePair_sym[OF sep])

lemma matches_iff:
  assumes sep: "separated lc a b" and xy: "separated lc x y"
    and c: "c_type c = ''direct''" "c_participantIds c = [x, y]"
  shows "matches lc (normalizePair lc a b) c \<longleftrightarrow> set (c_participantIds c) = {a, b}"
proof -
  have p: "ps ! 0 = qs ! 0 \<and> ps ! 1 = qs ! 1 \<longleftrightarrow> ps = qs"
    if "length ps = 2" "length qs = 2" for ps qs :: "string list"
    using that by (cases ps; cases qs) (auto simp: length_Suc_conv)
  have "matches lc (normalizePair lc a b) c \<longleftrightarrow> sort_js lc [x, y] = normalizePair lc a b"
    using c p[of "sort_js lc [x, y]" "normalizePair lc a b"]
    by (simp add: matches_def normalizePair_def)
  also have "\<dots> \<longleftrightarrow> {x, y} = {a, b}"
    using separatedD[OF sep] separatedD[OF xy] sep xy
    by (auto simp: normalizePair_eq sort_js_pair doubleton_eq_iff separated_def)
  finally show ?thesis using c by simp
qed

lemma map_update_first: "(\<And>x. g (f x) = g x) \<Longrightarrow> map g (update_first P f xs) = map g xs"
  by (induction xs) auto

lemma set_update_first: "set (update_first P f xs) \<subseteq> set xs \<union> f ` set xs"
  by (induction xs) auto

lemma find_None_iff': "find P xs = None \<longleftrightarrow> (\<forall>x \<in> set xs. \<not> P x)"
  by (induction xs) auto

text \<open>The invariant holds of the initial document, and every operation of the store keeps
  it, \<^verbatim>\<open>createOrGetDirectChat\<close> for two ids that the comparator separates.\<close>

lemma chats_inv_initial: "chats_inv lc initialData"
  by (simp add: chats_inv_def initialData_def)

lemma chats_inv_createUser:
  "chats_inv lc data \<Longrightarrow>
   chats_inv lc (persisted data (createUser newId now name login email pw data))"
  by (auto simp: chats_inv_def persisted_def createUser_def Let_def split: option.splits)

lemma chats_inv_markChatAsRead:
  "chats_inv lc data \<Longrightarrow> chats_inv lc (markChatAsRead chatId userId data)"
  by (simp add: chats_inv_def markChatAsRead_eq)

lemma chats_inv_addMessage:
  assumes inv: "chats_inv lc data"
  shows "chats_inv lc (persisted data (addMessage newId now a data))"
proof -
  have m: "map (\<lambda>c. set (c_participantIds c))
             (update_first P (\<lambda>c. c\<lparr>c_updatedAt := now\<rparr>) (chats data))
       = map (\<lambda>c. set (c_participantIds c)) (chats data)" for P
    by (rule map_update_first) simp
  have s: "c \<in> set (update_first P (\<lambda>c. c\<lparr>c_updatedAt := now\<rparr>) (chats data)) \<Longrightarrow>
        c_type c = ''direct'' \<and> (\<exists>x y. separated lc x y \<and> c_participantIds c = [x, y])" for c P
    using set_update_first[of P "\<lambda>c. c\<lparr>c_updatedAt := now\<rparr>" "chats data"] inv
    by (auto simp: chats_inv_def)
  show ?thesis using inv
    by (auto simp: persisted_addMessage chats_inv_def m dest: s)
qed

lemma chats_inv_createOrGet:
  assumes inv: "chats_inv lc data" and sep: "separated lc a b"
  shows "chats_inv lc (persisted data (createOrGetDirectChat lc newId t1 t2 a b data))"
proof (cases "find (matches lc (normalizePair lc a b)) (chats data)")
  case (Some e)
  with inv show ?thesis by (simp add: createOrGet_cases[OF sep] persisted_def)
next
  case None
  let ?c = "\<lparr>c_id = newId, c_type = ''direct'',
                  c_participantIds = normalizePair lc a b,
                  c_createdAt = t1, c_updatedAt = t2\<rparr>"
  have p: "persisted data (createOrGetDirectChat lc newId t1 t2 a b data)
          = data\<lparr>chats := chats data @ [?c]\<rparr>"
    using None by (simp add: createOrGet_cases[OF sep] persisted_def)
  have fresh: "set (c_participantIds c) \<noteq> {a, b}" if "c \<in> set (chats data)" for c
  proof -
    from that inv obtain x y where c: "c_type c = ''direct''" "separated lc x y"
        "c_participantIds c = [x, y]"
      by (auto simp: chats_inv_def)
    from None that have "\<not> matches lc (normalizePair lc a b) c"
      by (simp add: find_None_iff')
    with matches_iff[OF sep c(2) c(1) c(3)] show ?thesis by simp
  qed
  have two: "\<exists>x y. separated lc x y \<and> normalizePair lc a b = [x, y]"
    using sep separated_sym[OF sep] by (auto simp: normalizePair_eq)
  show ?thesis
    using inv fresh two
    by (auto simp: p chats_inv_def normalizePair_set)
qed

lemma distinct_filter_le1:
  "distinct (map g xs) \<Longrightarrow> length (filter (\<lambda>x. Q x \<and> g x = v) xs) \<le> 1"
proof (induction xs)
  case Nil
  then show ?case by simp
next
  case (Cons x xs)
  show ?case
  proof (cases "g x = v")
    case True
    with Cons.prems have "\<forall>y \<in> set xs. g y \<noteq> v" by (auto simp: image_iff)
    then have "filter (\<lambda>x. Q x \<and> g x = v) xs = []" by (simp add: filter_empty_conv)
    then show ?thesis by simp
  next
    case False
    with Cons show ?thesis by simp
  qed
qed

text \<open>Where the comparator separates the ids, the store keeps one direct chat for a pair:
  the second call, in either order, returns the chat of the first and leaves the store,
  and a store with the invariant has at most one direct chat for any pair.\<close>

lemma direct_chat_unique_separated:
  assumes sep: "separated lc a b"
  shows "\<exists>c d1. createOrGetDirectChat lc newId t1 t2 a b data = Inr (c, d1)
            \<and> createOrGetDirectChat lc newId t1 t2 b a data = Inr (c, d1)
            \<and> (\<forall>newId' t1' t2'.
                  createOrGetDirectChat lc newId' t1' t2' a b d1 = Inr (c, d1)
                \<and> createOrGetDirectChat lc newId' t1' t2' b a d1 = Inr (c, d1))"
proof -
  have "\<exists>c d1. createOrGetDirectChat lc newId t1 t2 a b data = Inr (c, d1)"
    by (cases "find (matches lc (normalizePair lc a b)) (chats data)")
      (simp_all add: createOrGet_cases[OF sep])
  then obtain c d1 where first: "createOrGetDirectChat lc newId t1 t2 a b data = Inr (c, d1)"
    by blast
  have again: "createOrGetDirectChat lc newId' t1' t2' a b d1 = Inr (c, d1)" for newId' t1' t2'
    by (rule createOrGet_again[OF sep first])
  from first again show ?thesis by (auto simp: createOrGet_swap[OF sep])
qed

lemma chats_inv_unique:
  assumes "chats_inv lc data"
  shows "length (filter (\<lambda>c. c_type c = ''direct'' \<and> set (c_participantIds c) = {x, y})
                   (chats data)) \<le> 1"
  using assms
    distinct_filter_le1[of "\<lambda>c. set (c_participantIds c)" "chats data"
      "\<lambda>c. c_type c = ''direct''" "{x, y}"]
  by (simp add: chats_inv_def)


lemma calls_wf_lookup: "calls_wf s \<Longrightarrow> getCallById k s = Some call \<Longrightarrow> call_id call = k"
  by (auto simp: calls_wf_def getCallById_def list_all_iff dest!: map_of_SomeD)

text \<open>Claim C7. On an existing call, each of the three relay commands is acknowledged
  with the error of a call that is not the user's, emits nothing and changes nothing
  when the sender or the named recipient is not a participant of the call; otherwise it
  is acknowledged with ok and emits one event, to the room of the recipient only, that
  carries the call id, the id of the sender and the payload.\<close>

theorem relay_forbidden:
  assumes "getCallById (trim (str_or_empty (rp_callId p))) s = Some call"
  shows "(su_id user \<notin> set (call_participantIds call)
           \<or> trim (str_or_empty (rp_toUserId p)) \<notin> set (call_participantIds call) \<longrightarrow>
            webrtc_offer user p s = (AckError Forbidden_Call, [], s)
          \<and> webrtc_answer user p s = (AckError Forbidden_Call, [], s)
          \<and> webrtc_ice_candidate user p s = (AckError Forbidden_Call, [], s))
       \<and> (su_id user \<in> set (call_participantIds call)
           \<and> trim (str_or_empty (rp_toUserId p)) \<in> set (call_participantIds call) \<longrightarrow>
            webrtc_offer user p s =
              (AckOk,
               [(user_room (trim (str_or_empty (rp_toUserId p))),
                 WebrtcOffer \<lparr>rl_callId = trim (str_or_empty (rp_callId p)),
                              rl_fromUserId = su_id user, rl_payload = rp_data p\<rparr>)], s)
          \<and> webrtc_answer user p s =
              (AckOk,
               [(user_room (trim (str_or_empty (rp_toUserId p))),
                 WebrtcAnswer \<lparr>rl_callId = trim (str_or_empty (rp_callId p)),
                               rl_fromUserId = su_id user, rl_payload = rp_data p\<rparr>)], s)
          \<and> webrtc_ice_candidate user p s =
              (AckOk,
               [(user_room (trim (str_or_empty (rp_toUserId p))),
                 WebrtcIceCandidate \<lparr>rl_callId = trim (str_or_empty (rp_callId p)),
                                     rl_fromUserId = su_id user, rl_payload = rp_data p\<rparr>)], s))"
  using assms by (simp add: webrtc_offer_def webrtc_answer_def webrtc_ice_candidate_def Let_def)

text \<open>Claim C10. On a call whose status is already \<^verbatim>\<open>active\<close>, accepting again as a
  participant is acknowledged with ok, emits \<^verbatim>\<open>call_answered\<close> with \<^verbatim>\<open>accepted: true\<close>, the
  room address and the kind to every participant, and leaves the server, the registry
  entry and its status as they were.\<close>

theorem answer_active_again:
  assumes found: "getCallById (trim (str_or_empty cid)) s = Some call"
    and active: "call_status call = ''active''"
    and part: "su_id user \<in> set (call_participantIds call)"
  shows "(call_answer user cid True s :: ack \<times> (string \<times> 'p event) list \<times> server) =
           (AckOk,
            map (\<lambda>userId. (user_room userId,
                  CallAnswered \<lparr>ca_callId = call_id call, ca_chatId = call_chatId call,
                                ca_accepted = True, ca_answeredByUserId = su_id user,
                                ca_answeredByName = su_name user,
                                ca_roomUrl = Some (call_roomUrl call),
                                ca_kind = Some (call_kind call)\<rparr>))
              (call_participantIds call),
            s)
       \<and> getCallById (trim (str_or_empty cid))
           (snd (snd (call_answer user cid True s :: ack \<times> (string \<times> 'p event) list \<times> server)))
         = Some call"
proof -
  have same: "call\<lparr>call_status := ''active''\<rparr> = call"
    using active by (cases call) simp
  have "AList.update (trim (str_or_empty cid)) call (activeCalls s) = activeCalls s"
    using found by (simp add: getCallById_def update_triv)
  then have 1: "(call_answer user cid True s :: ack \<times> (string \<times> 'p event) list \<times> server) =
           (AckOk,
            map (\<lambda>userId. (user_room userId,
                  CallAnswered \<lparr>ca_callId = call_id call, ca_chatId = call_chatId call,
                                ca_accepted = True, ca_answeredByUserId = su_id user,
                                ca_answeredByName = su_name user,
                                ca_roomUrl = Some (call_roomUrl call),
                                ca_kind = Some (call_kind call)\<rparr>))
              (call_participantIds call),
            s)"
    using found part by (simp add: call_answer_def Let_def same emitCallEvent_def)
  then show ?thesis using found by simp
qed

lemma absent_update: "k \<noteq> j \<Longrightarrow> map_of (AList.update j v al) k = map_of al k"
  by (simp add: update_conv')

lemma absent_delete: "map_of al k = None \<Longrightarrow> map_of (AList.delete j al) k = None"
  by (simp add: delete_conv')

lemma send_message_calls: "activeCalls (snd (snd (send_message newId now user p s))) = activeCalls s"
  by (auto simp: send_message_def Let_def split: sum.splits prod.splits)

lemma open_chat_calls: "activeCalls (snd (snd (open_chat user c s))) = activeCalls s"
  by (auto simp: open_chat_def Let_def split: sum.splits prod.splits)

lemma endCall_absent:
  "getCallById k s = None \<Longrightarrow> getCallById k (snd (snd (endCall j r e s))) = None"
  by (auto simp: endCall_def getCallById_def absent_delete split: option.splits)

lemma endCalls_absent:
  "getCallById k s = None \<Longrightarrow> getCallById k (snd (endCalls u calls s)) = None"
proof (induction calls arbitrary: s)
  case Nil
  then show ?case by simp
next
  case (Cons c calls)
  show ?case
    using Cons.IH[OF endCall_absent[OF Cons.prems, of "call_id c" "''missed''" "Some u"]]
          Cons.IH[OF endCall_absent[OF Cons.prems, of "call_id c" "''ended''" "Some u"]]
          Cons.IH[OF Cons.prems]
    by (auto simp: case_prod_unfold Let_def)
qed

lemma handle_absent:
  assumes "getCallById k s = None" "newId \<noteq> k"
  shows "getCallById k (snd (snd (handle newId now user cmd s))) = None"
proof (cases cmd)
  case (SendMessage p)
  then show ?thesis using assms
    by (simp add: case_prod_unfold getCallById_def send_message_calls)
next
  case (OpenChat c)
  then show ?thesis using assms
    by (simp add: case_prod_unfold getCallById_def open_chat_calls)
next
  case (CallInvite c kd)
  then show ?thesis using assms
    by (auto simp: call_invite_def createCall_def Let_def getCallById_def absent_update
        split: sum.splits option.splits)
next
  case (CallAnswer c acc)
  then show ?thesis using assms
    by (auto simp: call_answer_def Let_def getCallById_def update_conv' absent_delete
        split: option.splits)
next
  case (CallEnd c)
  then show ?thesis using assms endCall_absent[OF assms(1)]
    by (auto simp: call_end_def Let_def case_prod_unfold split: option.splits)
next
  case (RelayOffer p)
  then show ?thesis using assms by (auto simp: webrtc_offer_def Let_def split: option.splits)
next
  case (RelayAnswer p)
  then show ?thesis using assms by (auto simp: webrtc_answer_def Let_def split: option.splits)
next
  case (RelayIceCandidate p)
  then show ?thesis using assms by (auto simp: webrtc_ice_candidate_def Let_def split: option.splits)
next
  case Disconnect
  then show ?thesis using endCalls_absent[OF assms(1)]
    by (simp add: disconnect_def case_prod_unfold)
qed

lemma run_absent:
  "getCallById k s = None \<Longrightarrow> list_all (\<lambda>ev. fst ev \<noteq> k) evs \<Longrightarrow>
   getCallById k (run evs s) = None"
proof (induction evs arbitrary: s)
  case Nil
  then show ?case by simp
next
  case (Cons ev evs)
  obtain newId now user cmd where ev: "ev = (newId, now, user, cmd)" by (cases ev) auto
  with Cons.prems have n: "newId \<noteq> k" and r: "list_all (\<lambda>ev. fst ev \<noteq> k) evs"
    by simp_all
  have "getCallById k (snd (snd (handle newId now user cmd s))) = None"
    by (rule handle_absent[OF Cons.prems(1) n])
  from Cons.IH[OF this r] show ?case by (simp add: ev)
qed

text \<open>Claim C8. In a registry whose calls are stored under their ids, declining an
  existing call as one of its participants notifies every participant of the call with
  \<^verbatim>\<open>accepted: false\<close> and removes the call; after that, and after any further commands
  that draw other ids for their calls, every \<^verbatim>\<open>call_answer\<close> and every \<^verbatim>\<open>call_end\<close> on
  the id is acknowledged with the error of a missing call.\<close>

theorem decline_removes:
  assumes wf: "calls_wf s"
    and found: "getCallById (trim (str_or_empty cid)) s = Some call"
    and part: "su_id user \<in> set (call_participantIds call)"
    and fresh: "list_all (\<lambda>ev. fst ev \<noteq> trim (str_or_empty cid))
                  (evs :: (string \<times> string \<times> sock_user \<times> 'p command) list)"
  shows "(call_answer user cid False s :: ack \<times> (string \<times> 'p event) list \<times> server) =
           (AckOk,
            map (\<lambda>userId. (user_room userId,
                  CallAnswered \<lparr>ca_callId = call_id call, ca_chatId = call_chatId call,
                                ca_accepted = False, ca_answeredByUserId = su_id user,
                                ca_answeredByName = su_name user,
                                ca_roomUrl = None, ca_kind = None\<rparr>))
              (call_participantIds call),
            s\<lparr>activeCalls := AList.delete (trim (str_or_empty cid)) (activeCalls s)\<rparr>)
       \<and> getCallById (trim (str_or_empty cid)) (s\<lparr>activeCalls := AList.delete (trim (str_or_empty cid)) (activeCalls s)\<rparr>) = None
       \<and> (\<forall>user' accepted.
             (call_answer user' cid accepted (run evs (s\<lparr>activeCalls := AList.delete (trim (str_or_empty cid)) (activeCalls s)\<rparr>))
                :: ack \<times> (string \<times> 'p event) list \<times> server)
               = (AckError NotFound_Call, [], run evs (s\<lparr>activeCalls := AList.delete (trim (str_or_empty cid)) (activeCalls s)\<rparr>)))
       \<and> (\<forall>user'.
             (call_end user' cid (run evs (s\<lparr>activeCalls := AList.delete (trim (str_or_empty cid)) (activeCalls s)\<rparr>))
                :: ack \<times> (string \<times> 'p event) list \<times> server)
               = (AckError NotFound_Call, [], run evs (s\<lparr>activeCalls := AList.delete (trim (str_or_empty cid)) (activeCalls s)\<rparr>)))"
proof -
  let ?k = "trim (str_or_empty cid)"
  have id: "call_id call = ?k" by (rule calls_wf_lookup[OF wf found])
  have 1: "(call_answer user cid False s :: ack \<times> (string \<times> 'p event) list \<times> server) =
           (AckOk,
            map (\<lambda>userId. (user_room userId,
                  CallAnswered \<lparr>ca_callId = call_id call, ca_chatId = call_chatId call,
                                ca_accepted = False, ca_answeredByUserId = su_id user,
                                ca_answeredByName = su_name user,
                                ca_roomUrl = None, ca_kind = None\<rparr>))
              (call_participantIds call),
            s\<lparr>activeCalls := AList.delete ?k (activeCalls s)\<rparr>)"
    using found part by (simp add: call_answer_def Let_def emitCallEvent_def id)
  let ?s1 = "s\<lparr>activeCalls := AList.delete (trim (str_or_empty cid)) (activeCalls s)\<rparr>"
  have 2: "getCallById ?k ?s1 = None"
    by (simp add: getCallById_def delete_conv')
  have 3: "getCallById ?k (run evs ?s1) = None"
    by (rule run_absent[OF 2 fresh])
  have 4: "(call_answer user' cid accepted (run evs ?s1)
              :: ack \<times> (string \<times> 'p event) list \<times> server)
            = (AckError NotFound_Call, [], run evs ?s1)"
    for user' accepted
    using 3 by (simp add: call_answer_def Let_def)
  have 5: "(call_end user' cid (run evs ?s1) :: ack \<times> (string \<times> 'p event) list \<times> server)
            = (AckError NotFound_Call, [], run evs ?s1)" for user'
    using 3 by (simp add: call_end_def Let_def)
  from 1 2 4 5 show ?thesis by blast
qed

lemma kind_names_fixed: "list_all (\<lambda>k. toLowerCase (trim k) = k) store_kinds"
  by code_simp

lemma server_kinds_known: "list_all (\<lambda>k. k \<in> set store_kinds) server_kinds"
  by code_simp

lemma kind_fixed:
  assumes "k \<in> set server_kinds"
  shows "normalizeKind (Str k) md = k"
proof -
  from assms server_kinds_known have s: "k \<in> set store_kinds"
    by (simp add: list_all_iff)
  with kind_names_fixed have "toLowerCase (trim k) = k"
    by (simp add: list_all_iff)
  with s show ?thesis by (simp add: normalizeKind_def)
qed

lemma inferKind_in: "inferKindFromMime m \<in> set server_kinds"
  by (simp add: inferKindFromMime_def server_kinds_def Let_def)

lemma normalizeMessageKind_in: "normalizeMessageKind k m \<in> set server_kinds"
  by (auto simp: normalizeMessageKind_def Let_def inferKind_in)

lemma last_added:
  assumes "addMessage newId now a data = Inr (msg, data')"
  shows "last (messages data') = newMessage newId now a"
proof -
  have pos: "0 < MAX_MESSAGES" by (simp add: MAX_MESSAGES_def)
  from assms show ?thesis
    by (auto simp: addMessage_cases last_slice_last[OF _ pos] split: if_splits)
qed

lemma newMessage_kind:
  "m_kind (newMessage newId now a) =
     normalizeKind (case a_kind a of Undefined \<Rightarrow> Str ''text'' | k \<Rightarrow> k) (normalizeMedia (a_media a))"
  "m_media (newMessage newId now a) = normalizeMedia (a_media a)"
  "m_id (newMessage newId now a) = newId"
  by (simp_all add: newMessage_def Let_def)

lemma find_Some_holds: "find P xs = Some x \<Longrightarrow> P x"
  by (induction xs) (auto split: if_splits)

lemma ensureChatAccess_id: "ensureChatAccess c uid d = Inr chat \<Longrightarrow> c_id chat = c"
  by (auto simp: ensureChatAccess_def getChatById_def split: option.splits if_splits
      dest: find_Some_holds)

lemma send_message_ok:
  assumes ok: "send_message newId now user p s = (AckOkMessage mid, es, s')"
  shows "last (messages (store s')) = newMessage newId now
            \<lparr>a_chatId = trim (str_or_empty (sp_chatId p)), a_senderId = su_id user,
             a_senderName = su_name user,
             a_text = Str (sanitizeText (sp_text p)),
             a_kind = Str (normalizeMessageKind (sp_kind p)
                       (case sp_media p of None \<Rightarrow> Undefined | Some rm \<Rightarrow> rm_mimeType rm)),
             a_media = sp_media p\<rparr>"
    (is "_ = newMessage newId now ?a")
proof (cases "ensureChatAccess (trim (str_or_empty (sp_chatId p))) (su_id user) (store s)")
  case (Inl e)
  with ok show ?thesis by (simp add: send_message_def Let_def split: if_splits)
next
  case (Inr chat)
  have id: "c_id chat = trim (str_or_empty (sp_chatId p))"
    by (rule ensureChatAccess_id[OF Inr])
  show ?thesis
  proof (cases "addMessage newId now ?a (store s)")
    case (Inl e)
    with ok Inr id show ?thesis
      by (simp add: send_message_def sendMessageAndBroadcast_def Let_def split: if_splits)
  next
    case added: (Inr r)
    obtain msg d where r: "r = (msg, d)" by (cases r)
    from ok Inr id added r have "s' = s\<lparr>store := d\<rparr>"
      by (simp add: send_message_def sendMessageAndBroadcast_def Let_def split: if_splits)
    with last_added[OF added[unfolded r]] show ?thesis by simp
  qed
qed

lemma upload_ok:
  assumes ok: "upload newId now user chatId upfile body s = (ResponseCreated m, es, s')"
  shows "\<exists>f. upfile = Some f \<and> last (messages (store s')) = newMessage newId now
            \<lparr>a_chatId = chatId, a_senderId = u_id user, a_senderName = u_name user,
             a_text = Str (sanitizeText (ub_caption body)),
             a_kind = Str (normalizeMessageKind (ub_kind body) (Str (uf_mimetype f))),
             a_media = Some \<lparr>rm_url = Str (''/uploads/'' @ uf_filename f),
                       rm_fileName = Str (if uf_originalname f \<noteq> [] then uf_originalname f
                                          else uf_filename f),
                       rm_mimeType = Str (uf_mimetype f),
                       rm_size = Num (uf_size f),
                       rm_durationSec = parseOptionalNumber (ub_durationSec body),
                       rm_width = parseOptionalNumber (ub_width body),
                       rm_height = parseOptionalNumber (ub_height body)\<rparr>\<rparr>"
proof (cases "ensureChatAccess chatId (u_id user) (store s)")
  case (Inl e)
  with ok show ?thesis by (simp add: upload_def)
next
  case (Inr chat)
  have id: "c_id chat = chatId" by (rule ensureChatAccess_id[OF Inr])
  show ?thesis
  proof (cases "upfile")
    case None
    with ok Inr show ?thesis by (simp add: upload_def)
  next
    case (Some f)
    let ?a = "\<lparr>a_chatId = chatId, a_senderId = u_id user, a_senderName = u_name user,
             a_text = Str (sanitizeText (ub_caption body)),
             a_kind = Str (normalizeMessageKind (ub_kind body) (Str (uf_mimetype f))),
             a_media = Some \<lparr>rm_url = Str (''/uploads/'' @ uf_filename f),
                       rm_fileName = Str (if uf_originalname f \<noteq> [] then uf_originalname f
                                          else uf_filename f),
                       rm_mimeType = Str (uf_mimetype f),
                       rm_size = Num (uf_size f),
                       rm_durationSec = parseOptionalNumber (ub_durationSec body),
                       rm_width = parseOptionalNumber (ub_width body),
                       rm_height = parseOptionalNumber (ub_height body)\<rparr>\<rparr>"
    show ?thesis
    proof (cases "addMessage newId now ?a (store s)")
      case (Inl e)
      with ok Inr id Some show ?thesis
        by (simp add: upload_def sendMessageAndBroadcast_def Let_def)
    next
      case added: (Inr r)
      obtain msg d where r: "r = (msg, d)" by (cases r)
      from ok Inr id Some added r have "s' = s\<lparr>store := d\<rparr>"
        by (simp add: upload_def sendMessageAndBroadcast_def Let_def)
      with last_added[OF added[unfolded r]] Some show ?thesis by simp
    qed
  qed
qed

lemma trim_nonempty: "\<not> is_space c \<Longrightarrow> trim (c # cs) \<noteq> []"
  by (simp add: trim_def dropWhile_append dropWhile_eq_Nil_conv)

lemma upload_media_present:
  "normalizeMedia (Some \<lparr>rm_url = Str (''/uploads/'' @ n), rm_fileName = a, rm_mimeType = b,
      rm_size = c, rm_durationSec = d, rm_width = e, rm_height = f\<rparr>) \<noteq> None"
proof -
  have "trim (''/uploads/'' @ n) \<noteq> []"
    using trim_nonempty[of "CHR ''/''" "''uploads/'' @ n"] by (simp add: is_space_def)
  then show ?thesis by (simp add: normalizeMedia_def Let_def)
qed

text \<open>Claim C1, as amended. A message added through \<^verbatim>\<open>addMessage\<close> with a kind that
  is null, empty or none of the six kinds of the store is stored with the kind \<^verbatim>\<open>file\<close>
  when its normalized media is present and \<^verbatim>\<open>text\<close> when it is absent, and an omitted
  kind takes the default \<^verbatim>\<open>text\<close>. A message sent through \<^verbatim>\<open>send_message\<close> with media
  present, or uploaded, with a kind that is unspecified or none of the five kinds of the
  server, is stored with the kind inferred from the MIME type of its media: \<^verbatim>\<open>image\<close>,
  \<^verbatim>\<open>video\<close> or \<^verbatim>\<open>audio\<close> by its prefix, otherwise \<^verbatim>\<open>file\<close>. The stored message is the
  last one of the store.\<close>

theorem kind_default:
  "(\<forall>msg data'. addMessage newId now a data = Inr (msg, data') \<longrightarrow>
       m_media (last (messages data')) = normalizeMedia (a_media a)
     \<and> (a_kind a = Undefined \<longrightarrow> m_kind (last (messages data')) = ''text'')
     \<and> (a_kind a \<noteq> Undefined
          \<and> toLowerCase (trim (str_or_empty (a_kind a))) \<notin> set store_kinds \<longrightarrow>
          m_kind (last (messages data'))
            = (if normalizeMedia (a_media a) \<noteq> None then ''file'' else ''text'')))
   \<and> (\<forall>mid es s'.
         send_message newId now user p s
           = (AckOkMessage mid, es :: (string \<times> 'p event) list, s')
       \<and> toLowerCase (trim (str_or_empty (sp_kind p))) \<notin> set server_kinds
       \<and> normalizeMedia (sp_media p) \<noteq> None \<longrightarrow>
         m_media (last (messages (store s'))) = normalizeMedia (sp_media p)
       \<and> m_kind (last (messages (store s')))
           = inferKindFromMime (case sp_media p of None \<Rightarrow> Undefined
                                | Some rm \<Rightarrow> rm_mimeType rm))
   \<and> (\<forall>m es s'.
         upload newId now owner chatId upfile body s
           = (ResponseCreated m, es :: (string \<times> 'p event) list, s')
       \<and> toLowerCase (trim (str_or_empty (ub_kind body))) \<notin> set server_kinds \<longrightarrow>
         m_media (last (messages (store s'))) \<noteq> None
       \<and> (\<exists>f. upfile = Some f
            \<and> m_kind (last (messages (store s'))) = inferKindFromMime (Str (uf_mimetype f))))"
proof -
  have tk: "normalizeKind (Str ''text'') md = ''text''" for md
    by (rule kind_fixed) (simp add: server_kinds_def)
  have 1: "\<forall>msg data'. addMessage newId now a data = Inr (msg, data') \<longrightarrow>
       m_media (last (messages data')) = normalizeMedia (a_media a)
     \<and> (a_kind a = Undefined \<longrightarrow> m_kind (last (messages data')) = ''text'')
     \<and> (a_kind a \<noteq> Undefined
          \<and> toLowerCase (trim (str_or_empty (a_kind a))) \<notin> set store_kinds \<longrightarrow>
          m_kind (last (messages data'))
            = (if normalizeMedia (a_media a) \<noteq> None then ''file'' else ''text''))"
  proof (intro allI impI)
    fix msg data'
    assume "addMessage newId now a data = Inr (msg, data')"
    then have l: "last (messages data') = newMessage newId now a" by (rule last_added)
    show "m_media (last (messages data')) = normalizeMedia (a_media a)
     \<and> (a_kind a = Undefined \<longrightarrow> m_kind (last (messages data')) = ''text'')
     \<and> (a_kind a \<noteq> Undefined
          \<and> toLowerCase (trim (str_or_empty (a_kind a))) \<notin> set store_kinds \<longrightarrow>
          m_kind (last (messages data'))
            = (if normalizeMedia (a_media a) \<noteq> None then ''file'' else ''text''))"
      by (cases "a_kind a") (simp_all add: l newMessage_kind tk, simp_all add: normalizeKind_def)
  qed
  have 2: "m_media (last (messages (store s'))) = normalizeMedia (sp_media p)
       \<and> m_kind (last (messages (store s')))
           = inferKindFromMime (case sp_media p of None \<Rightarrow> Undefined
                                | Some rm \<Rightarrow> rm_mimeType rm)"
    if ok: "send_message newId now user p s
           = (AckOkMessage mid, es :: (string \<times> 'p event) list, s')"
      and inv: "toLowerCase (trim (str_or_empty (sp_kind p))) \<notin> set server_kinds"
    for mid es s'
  proof -
    from send_message_ok[OF ok] show ?thesis
      using inv by (simp add: newMessage_kind kind_fixed[OF normalizeMessageKind_in])
        (simp add: normalizeMessageKind_def)
  qed
  have 3: "m_media (last (messages (store s'))) \<noteq> None
       \<and> (\<exists>f. upfile = Some f
            \<and> m_kind (last (messages (store s'))) = inferKindFromMime (Str (uf_mimetype f)))"
    if ok: "upload newId now owner chatId upfile body s
           = (ResponseCreated m, es :: (string \<times> 'p event) list, s')"
      and inv: "toLowerCase (trim (str_or_empty (ub_kind body))) \<notin> set server_kinds"
    for m es s'
  proof -
    from upload_ok[OF ok] obtain f where f: "upfile = Some f" and
      l: "last (messages (store s')) = newMessage newId now
            \<lparr>a_chatId = chatId, a_senderId = u_id owner, a_senderName = u_name owner,
             a_text = Str (sanitizeText (ub_caption body)),
             a_kind = Str (normalizeMessageKind (ub_kind body) (Str (uf_mimetype f))),
             a_media = Some \<lparr>rm_url = Str (''/uploads/'' @ uf_filename f),
                       rm_fileName = Str (if uf_originalname f \<noteq> [] then uf_originalname f
                                          else uf_filename f),
                       rm_mimeType = Str (uf_mimetype f),
                       rm_size = Num (uf_size f),
                       rm_durationSec = parseOptionalNumber (ub_durationSec body),
                       rm_width = parseOptionalNumber (ub_width body),
                       rm_height = parseOptionalNumber (ub_height body)\<rparr>\<rparr>"
      by blast
    from l show ?thesis
      using inv f upload_media_present
      by (simp add: newMessage_kind kind_fixed[OF normalizeMessageKind_in])
        (simp add: normalizeMessageKind_def)
  qed
  from 1 2 3 show ?thesis by blast
qed

lemma codeUnitCompare_separated: "a \<noteq> b \<Longrightarrow> separated codeUnitCompare a b"
proof -
  have anti: "(codeUnitCompare a b < 0) = (0 < codeUnitCompare b a)" for a b
    by (induction a b rule: codeUnitCompare.induct) auto
  have zero: "codeUnitCompare a b = 0 \<longrightarrow> a = b" for a b
    by (induction a b rule: codeUnitCompare.induct) (auto split: if_splits)
  show "a \<noteq> b \<Longrightarrow> separated codeUnitCompare a b"
    using anti[of a b] anti[of b a] zero[of a b] by (simp add: separated_def)
qed

lemma calls_wf_update:
  "calls_wf s \<Longrightarrow> call_id call = k \<Longrightarrow>
   calls_wf (s\<lparr>activeCalls := AList.update k call (activeCalls s)\<rparr>)"
proof -
  have "list_all (\<lambda>(k, call). call_id call = k) al \<Longrightarrow> call_id call = k \<Longrightarrow>
        list_all (\<lambda>(k, call). call_id call = k) (AList.update k call al)" for al
    by (induction al) auto
  then show "calls_wf s \<Longrightarrow> call_id call = k \<Longrightarrow> ?thesis"
    by (simp add: calls_wf_def)
qed

lemma calls_wf_delete:
  "calls_wf s \<Longrightarrow> calls_wf (s\<lparr>activeCalls := AList.delete k (activeCalls s)\<rparr>)"
proof -
  have "list_all P al \<Longrightarrow> list_all P (AList.delete k al)" for P and al :: "(string \<times> call) list"
    by (induction al) auto
  then show "calls_wf s \<Longrightarrow> ?thesis" by (simp add: calls_wf_def)
qed

lemma calls_wf_store: "calls_wf (s\<lparr>store := d\<rparr>) = calls_wf s"
  by (simp add: calls_wf_def)

lemma endCalls_wf: "calls_wf s \<Longrightarrow> calls_wf (snd (endCalls u calls s))"
proof (induction calls arbitrary: s)
  case Nil
  then show ?case by simp
next
  case (Cons c calls)
  have e: "calls_wf (snd (snd (endCall j r x s)))" for j r x
    using Cons.prems by (simp add: endCall_def calls_wf_delete split: option.splits)
  show ?case
    using Cons.IH[OF e[of "call_id c" "''missed''" "Some u"]]
          Cons.IH[OF e[of "call_id c" "''ended''" "Some u"]]
          Cons.IH[OF Cons.prems]
    by (auto simp: case_prod_unfold Let_def)
qed

text \<open>The registry starts empty, and every command keeps its calls under their ids.\<close>

lemma calls_wf_handle:
  assumes wf: "calls_wf s"
  shows "calls_wf (snd (snd (handle newId now user cmd s)))"
proof (cases cmd)
  case (SendMessage p)
  then show ?thesis using wf
    by (simp add: case_prod_unfold calls_wf_def send_message_calls)
next
  case (OpenChat c)
  then show ?thesis using wf
    by (simp add: case_prod_unfold calls_wf_def open_chat_calls)
next
  case (CallInvite c kd)
  then show ?thesis using wf
    by (auto simp: call_invite_def createCall_def Let_def calls_wf_update
        split: sum.splits option.splits)
next
  case (CallAnswer c acc)
  show ?thesis
  proof (cases "getCallById (trim (str_or_empty c)) s")
    case None
    with CallAnswer wf show ?thesis by (simp add: call_answer_def Let_def)
  next
    case (Some call)
    have "call_id (call\<lparr>call_status := ''active''\<rparr>) = trim (str_or_empty c)"
      using calls_wf_lookup[OF wf Some] by simp
    from calls_wf_update[OF wf this] calls_wf_delete[OF wf, of "call_id call"] CallAnswer Some wf
    show ?thesis by (simp add: call_answer_def Let_def)
  qed
next
  case (CallEnd c)
  then show ?thesis using wf
    by (auto simp: call_end_def endCall_def Let_def calls_wf_delete split: option.splits)
next
  case (RelayOffer p)
  then show ?thesis using wf by (auto simp: webrtc_offer_def Let_def split: option.splits)
next
  case (RelayAnswer p)
  then show ?thesis using wf by (auto simp: webrtc_answer_def Let_def split: option.splits)
next
  case (RelayIceCandidate p)
  then show ?thesis using wf
    by (auto simp: webrtc_ice_candidate_def Let_def split: option.splits)
next
  case Disconnect
  then show ?thesis using endCalls_wf[OF wf]
    by (simp add: disconnect_def case_prod_unfold)
qed

lemma calls_wf_initial: "calls_wf \<lparr>store = data, activeCalls = []\<rparr>"
  by (simp add: calls_wf_def)

lemma calls_wf_run: "calls_wf s \<Longrightarrow> calls_wf (run evs s)"
proof (induction evs arbitrary: s)
  case Nil
  then show ?case by simp
next
  case (Cons ev evs)
  obtain newId now user cmd where ev: "ev = (newId, now, user, cmd)" by (cases ev) auto
  from Cons.IH[OF calls_wf_handle[OF Cons.prems, of newId now user cmd]] show ?case
    by (simp add: ev)
qed

lemma reachable_cap: "reachable lc data \<Longrightarrow> length (messages data) \<le> MAX_MESSAGES"
proof (induction rule: reachable.induct)
  case reach_init
  then show ?case by (simp add: initialData_def)
next
  case (reach_user data newId now name login email pw)
  then show ?case
    by (auto simp: persisted_def createUser_def Let_def split: option.splits)
next
  case (reach_chat data newId t1 t2 userA userB)
  then show ?case
    by (auto simp: persisted_def createOrGetDirectChat_def Let_def split: option.splits)
next
  case (reach_message data newId now a)
  have "0 < MAX_MESSAGES" by (simp add: MAX_MESSAGES_def)
  with reach_message show ?case
    by (simp add: persisted_addMessage length_slice_last)
next
  case (reach_read data chatId userId)
  then show ?case by (simp add: messages_markChatAsRead)
qed

section \<open>Witnesses and counterexamples\<close>

text \<open>Claim C6, a witness: a message for the unknown chat zz and a message for the
  chat c1.\<close>

theorem addMessage_NotFound_witness:
  "getChatById ''zz'' data1 = None
   \<and> addMessage ''m1'' ''t1'' (hi_args\<lparr>a_chatId := ''zz''\<rparr>) data1 = Inl NotFound_Chat
   \<and> persisted data1 (addMessage ''m1'' ''t1'' (hi_args\<lparr>a_chatId := ''zz''\<rparr>) data1) = data1
   \<and> addMessage ''m1'' ''t1'' hi_args data1
       = Inr (message_m1, data1\<lparr>chats := [chat_c1\<lparr>c_updatedAt := ''t1''\<rparr>],
                                 messages := [message_m1]\<rparr>)
   \<and> (\<exists>c. getChatById ''c1'' (data1\<lparr>chats := [chat_c1\<lparr>c_updatedAt := ''t1''\<rparr>],
                                       messages := [message_m1]\<rparr>) = Some c
          \<and> c_updatedAt c = m_createdAt message_m1)"
proof -
  have none: "getChatById (a_chatId (hi_args\<lparr>a_chatId := ''zz''\<rparr>)) data1 = None"
    by code_simp
  have ok: "addMessage ''m1'' ''t1'' hi_args data1
       = Inr (message_m1, data1\<lparr>chats := [chat_c1\<lparr>c_updatedAt := ''t1''\<rparr>],
                                 messages := [message_m1]\<rparr>)"
    by code_simp
  from addMessage_NotFound[of "''m1''" "''t1''" "hi_args\<lparr>a_chatId := ''zz''\<rparr>" data1] none
  have 1: "addMessage ''m1'' ''t1'' (hi_args\<lparr>a_chatId := ''zz''\<rparr>) data1 = Inl NotFound_Chat
     \<and> persisted data1 (addMessage ''m1'' ''t1'' (hi_args\<lparr>a_chatId := ''zz''\<rparr>) data1) = data1"
    by simp
  from addMessage_NotFound[of "''m1''" "''t1''" hi_args data1] ok
  have 2: "\<exists>c. getChatById (a_chatId hi_args)
                 (data1\<lparr>chats := [chat_c1\<lparr>c_updatedAt := ''t1''\<rparr>],
                         messages := [message_m1]\<rparr>) = Some c
          \<and> c_updatedAt c = m_createdAt message_m1"
    by simp
  have c: "a_chatId hi_args = ''c1''" by (simp add: hi_args_def)
  from none 1 ok 2 show ?thesis unfolding c by (simp add: persisted_def)
qed

text \<open>Claim C3, a witness: a store that is full of messages of the chat c2 receives a
  message for the chat c1; the oldest message is evicted.\<close>

theorem retention_witness:
  "length (messages full_data) \<le> MAX_MESSAGES
   \<and> messages (addMessages [(''m1'', ''t1'', hi_args)] full_data)
       = replicate 2999 old_message @ [newMessage ''m1'' ''t1'' hi_args]
   \<and> length (messages (addMessages [(''m1'', ''t1'', hi_args)] full_data)) = 3000"
proof -
  have h: "length (messages full_data) \<le> MAX_MESSAGES"
    by (simp add: full_data_def MAX_MESSAGES_def)
  have c: "getChatById (a_chatId hi_args) full_data \<noteq> None" by code_simp
  have cr: "created full_data [(''m1'', ''t1'', hi_args)] = [newMessage ''m1'' ''t1'' hi_args]"
    using c by (simp add: created_def)
  have m: "messages full_data = replicate 3000 old_message" by (simp add: full_data_def)
  have pos: "0 < MAX_MESSAGES" by (simp add: MAX_MESSAGES_def)
  have mr: "most_recent MAX_MESSAGES (replicate 3000 old_message @ [newMessage ''m1'' ''t1'' hi_args])
              = replicate 2999 old_message @ [newMessage ''m1'' ''t1'' hi_args]"
    unfolding slice_last_most_recent[OF pos, symmetric]
    by (simp add: slice_last_def MAX_MESSAGES_def)
  from retention[OF h, of "[(''m1'', ''t1'', hi_args)]"] h show ?thesis
    by (simp add: cr m mr)
qed

text \<open>Claim C1, as stated, fails: a photo sent through \<^verbatim>\<open>send_message\<close> with no kind
  is stored with its media and the kind \<^verbatim>\<open>image\<close>, not \<^verbatim>\<open>file\<close>.\<close>

theorem kind_default_counterexample:
  "m_media (last (messages (store (snd (snd
      (send_message ''m1'' ''t1'' ann photo_payload server1
         :: ack \<times> (string \<times> unit event) list \<times> server)))))) \<noteq> None
   \<and> m_kind (last (messages (store (snd (snd
      (send_message ''m1'' ''t1'' ann photo_payload server1
         :: ack \<times> (string \<times> unit event) list \<times> server)))))) = ''image''"
  by code_simp

text \<open>Claim C1, a witness of the amended claim: a message of the unknown kind
  \<^verbatim>\<open>sticker\<close> added to the store with and without media, and with the kind omitted; a
  photo sent and a photo uploaded with no kind.\<close>

theorem kind_default_witness:
  "a_kind sticker_args \<noteq> Undefined
   \<and> toLowerCase (trim (str_or_empty (a_kind sticker_args))) \<notin> set store_kinds
   \<and> normalizeMedia (a_media sticker_args) \<noteq> None
   \<and> m_kind (last (messages (persisted data1 (addMessage ''m1'' ''t1'' sticker_args data1))))
       = ''file''
   \<and> m_kind (last (messages (persisted data1
         (addMessage ''m1'' ''t1'' (sticker_args\<lparr>a_media := None\<rparr>) data1)))) = ''text''
   \<and> m_kind (last (messages (persisted data1
         (addMessage ''m1'' ''t1'' (sticker_args\<lparr>a_kind := Undefined\<rparr>) data1)))) = ''text''
   \<and> fst (send_message ''m1'' ''t1'' ann photo_payload server1
           :: ack \<times> (string \<times> unit event) list \<times> server) = AckOkMessage ''m1''
   \<and> toLowerCase (trim (str_or_empty (sp_kind photo_payload))) \<notin> set server_kinds
   \<and> normalizeMedia (sp_media photo_payload) \<noteq> None
   \<and> m_kind (last (messages (store (snd (snd
         (send_message ''m1'' ''t1'' ann photo_payload server1
            :: ack \<times> (string \<times> unit event) list \<times> server))))))
       = inferKindFromMime (Str ''image/png'')
   \<and> toLowerCase (trim (str_or_empty (ub_kind photo_body))) \<notin> set server_kinds
   \<and> m_kind (last (messages (store (snd (snd
         (upload ''m1'' ''t1'' user_a1 ''c1'' (Some photo_file) photo_body server1
            :: response \<times> (string \<times> unit event) list \<times> server))))))
       = inferKindFromMime (Str ''image/png'')"
proof -
  let ?send = "send_message ''m1'' ''t1'' ann photo_payload server1
                 :: ack \<times> (string \<times> unit event) list \<times> server"
  let ?up = "upload ''m1'' ''t1'' user_a1 ''c1'' (Some photo_file) photo_body server1
                 :: response \<times> (string \<times> unit event) list \<times> server"
  have k: "a_kind sticker_args \<noteq> Undefined"
       "a_kind (sticker_args\<lparr>a_media := None\<rparr>) \<noteq> Undefined"
       "a_kind (sticker_args\<lparr>a_kind := Undefined\<rparr>) = Undefined"
    by (simp_all add: sticker_args_def)
  have v: "toLowerCase (trim (str_or_empty (a_kind sticker_args))) \<notin> set store_kinds"
       "toLowerCase (trim (str_or_empty (a_kind (sticker_args\<lparr>a_media := None\<rparr>))))
          \<notin> set store_kinds"
    by code_simp+
  have md: "normalizeMedia (a_media sticker_args) \<noteq> None"
       "normalizeMedia (a_media (sticker_args\<lparr>a_media := None\<rparr>)) = None"
    by code_simp+
  have c: "getChatById ''c1'' data1 \<noteq> None" by code_simp
  have ch: "a_chatId sticker_args = ''c1''" by (simp add: sticker_args_def)
  have add: "\<exists>msg d. addMessage ''m1'' ''t1'' a data1 = Inr (msg, d)" if "a_chatId a = ''c1''" for a
    using c that by (simp add: addMessage_cases)
  have p: "addMessage ''m1'' ''t1'' a data1 = Inr (msg, d)
      \<Longrightarrow> persisted data1 (addMessage ''m1'' ''t1'' a data1) = d" for a msg d
    by (simp add: persisted_def)
  obtain m1 d1 where a1: "addMessage ''m1'' ''t1'' sticker_args data1 = Inr (m1, d1)"
    using add[of sticker_args] ch by auto
  obtain m2 d2 where a2: "addMessage ''m1'' ''t1'' (sticker_args\<lparr>a_media := None\<rparr>) data1 = Inr (m2, d2)"
    using add[of "sticker_args\<lparr>a_media := None\<rparr>"] ch by auto
  obtain m3 d3 where a3: "addMessage ''m1'' ''t1'' (sticker_args\<lparr>a_kind := Undefined\<rparr>) data1 = Inr (m3, d3)"
    using add[of "sticker_args\<lparr>a_kind := Undefined\<rparr>"] ch by auto
  note store_part = kind_default[where newId = "''m1''" and now = "''t1''" and data = data1,
      THEN conjunct1, rule_format]
  have 1: "m_kind (last (messages d1)) = ''file''"
    using store_part[OF a1] k(1) v(1) md(1) by simp
  have 2: "m_kind (last (messages d2)) = ''text''"
    using store_part[OF a2] k(2) v(2) md(2) by simp
  have 3: "m_kind (last (messages d3)) = ''text''"
    using store_part[OF a3] k(3) by simp
  have s1: "fst ?send = AckOkMessage ''m1''" by code_simp
  then have s2: "?send = (AckOkMessage ''m1'', fst (snd ?send), snd (snd ?send))"
    by (simp add: prod_eq_iff)
  have sv: "toLowerCase (trim (str_or_empty (sp_kind photo_payload))) \<notin> set server_kinds"
    by code_simp
  have sm: "normalizeMedia (sp_media photo_payload) \<noteq> None" by code_simp
  have mime: "(case sp_media photo_payload of None \<Rightarrow> Undefined | Some rm \<Rightarrow> rm_mimeType rm)
      = Str ''image/png''"
    by (simp add: photo_payload_def photo_def)
  have 4: "m_kind (last (messages (store (snd (snd ?send))))) = inferKindFromMime (Str ''image/png'')"
    using kind_default[where newId = "''m1''" and now = "''t1''" and user = ann
        and p = photo_payload and s = server1 and 'p = unit,
        THEN conjunct2, THEN conjunct1, rule_format, of "''m1''" "fst (snd ?send)" "snd (snd ?send)"]
      s2 sv sm mime
    by simp
  have "(case fst ?up of ResponseCreated m \<Rightarrow> True | ResponseError n e \<Rightarrow> False)"
    by code_simp
  then obtain m where "fst ?up = ResponseCreated m"
    by (cases "fst ?up") simp_all
  then have u2: "?up = (ResponseCreated m, fst (snd ?up), snd (snd ?up))"
    by (simp add: prod_eq_iff)
  have uv: "toLowerCase (trim (str_or_empty (ub_kind photo_body))) \<notin> set server_kinds"
    by code_simp
  have 5: "m_kind (last (messages (store (snd (snd ?up))))) = inferKindFromMime (Str ''image/png'')"
  proof -
    from kind_default[where newId = "''m1''" and now = "''t1''" and owner = user_a1
        and chatId = "''c1''" and upfile = "Some photo_file" and body = photo_body
        and s = server1 and 'p = unit,
        THEN conjunct2, THEN conjunct2, rule_format, of m "fst (snd ?up)" "snd (snd ?up)"] u2 uv
    have "\<exists>f. Some photo_file = Some f
            \<and> m_kind (last (messages (store (snd (snd ?up))))) = inferKindFromMime (Str (uf_mimetype f))"
      by blast
    then show ?thesis by (simp add: photo_file_def)
  qed
  from k(1) v(1) md(1) 1 2 3 s1 sv sm 4 uv 5 show ?thesis
    by (simp only: p[OF a1] p[OF a2] p[OF a3] simp_thms)
qed


text \<open>Claim C4, a witness: the chat c1 holds a message of a1 and a message of b1; b1 has
  one unread message, and none after marking the chat as read.\<close>

theorem unread_count_witness:
  "hd (listChatsForUser codeUnitCompare ''b1'' data2)
     \<in> set (listChatsForUser codeUnitCompare ''b1'' data2)
   \<and> s_id (hd (listChatsForUser codeUnitCompare ''b1'' data2)) = ''c1''
   \<and> s_unreadCount (hd (listChatsForUser codeUnitCompare ''b1'' data2))
       = unread_spec data2 ''c1'' ''b1''
   \<and> unread_spec data2 ''c1'' ''b1'' = 1
   \<and> unread_spec (markChatAsRead ''c1'' ''b1'' data2) ''c1'' ''b1'' = 0
   \<and> hd (listChatsForUser codeUnitCompare ''b1'' (markChatAsRead ''c1'' ''b1'' data2))
       \<in> set (listChatsForUser codeUnitCompare ''b1'' (markChatAsRead ''c1'' ''b1'' data2))
   \<and> s_id (hd (listChatsForUser codeUnitCompare ''b1'' (markChatAsRead ''c1'' ''b1'' data2)))
       = ''c1''
   \<and> s_unreadCount (hd (listChatsForUser codeUnitCompare ''b1''
         (markChatAsRead ''c1'' ''b1'' data2))) = 0
   \<and> unread_spec (after_read (MarkChatAsRead ''c1'' ''a1'') data2) ''c1'' ''b1''
       \<le> unread_spec data2 ''c1'' ''b1''"
proof -
  let ?L = "listChatsForUser codeUnitCompare ''b1'' data2"
  let ?L' = "listChatsForUser codeUnitCompare ''b1'' (markChatAsRead ''c1'' ''b1'' data2)"
  note u = unread_count[of codeUnitCompare "''b1''" data2 "''c1''"]
  have m: "hd ?L \<in> set ?L" by code_simp
  have i: "s_id (hd ?L) = ''c1''" by code_simp
  have m': "hd ?L' \<in> set ?L'" by code_simp
  have i': "s_id (hd ?L') = ''c1''" by code_simp
  have one: "unread_spec data2 ''c1'' ''b1'' = 1" by code_simp
  from u m have 1: "s_unreadCount (hd ?L) = unread_spec data2 (s_id (hd ?L)) ''b1''" by blast
  from u have 3: "unread_spec (markChatAsRead ''c1'' ''b1'' data2) ''c1'' ''b1'' = 0" by blast
  from u m' i' have 4: "s_unreadCount (hd ?L') = 0" by blast
  from u have 5: "unread_spec (after_read (MarkChatAsRead ''c1'' ''a1'') data2) ''c1'' ''b1''
       \<le> unread_spec data2 ''c1'' ''b1''" by blast
  from m i 1 one 3 m' i' 4 5 show ?thesis by (simp only: simp_thms)
qed

text \<open>Claim C5, a witness: a message is added to the chat c1 and b1 marks the chat as
  read.\<close>

theorem readBy_grows_witness:
  "m_readBy (last (messages (persisted data2 (addMessage ''m3'' ''t3'' hi_args data2))))
     = Some [''a1'']
   \<and> markChatAsRead ''c1'' ''b1'' (markChatAsRead ''c1'' ''b1'' data2)
       = markChatAsRead ''c1'' ''b1'' data2
   \<and> (0::nat) < length (messages data2)
   \<and> readers (messages data2 ! 0) \<subseteq> readers (messages (markChatAsRead ''c1'' ''b1'' data2) ! 0)
   \<and> m_readBy (messages (markChatAsRead ''c1'' ''b1'' data2) ! 0) = Some [''a1'', ''b1'']"
proof -
  note g = readBy_grows[of "''m3''" "''t3''" hi_args data2 "''c1''" "''b1''"]
  have c: "getChatById (a_chatId hi_args) data2 \<noteq> None" by code_simp
  then obtain msg d where a: "addMessage ''m3'' ''t3'' hi_args data2 = Inr (msg, d)"
    by (auto simp: addMessage_cases)
  then have p: "persisted data2 (addMessage ''m3'' ''t3'' hi_args data2) = d"
    by (simp add: persisted_def)
  have s: "a_senderId hi_args = ''a1''" by (simp add: hi_args_def)
  from g a s have 1: "m_readBy (last (messages d)) = Some [''a1'']" by simp
  from g have 2: "markChatAsRead ''c1'' ''b1'' (markChatAsRead ''c1'' ''b1'' data2)
       = markChatAsRead ''c1'' ''b1'' data2" by blast
  have 3: "(0::nat) < length (messages data2)" by (simp add: data2_def)
  from g 3 have 4: "readers (messages data2 ! 0)
      \<subseteq> readers (messages (markChatAsRead ''c1'' ''b1'' data2) ! 0)" by blast
  have 5: "m_readBy (messages (markChatAsRead ''c1'' ''b1'' data2) ! 0) = Some [''a1'', ''b1'']"
    by code_simp
  from 1 2 3 4 5 show ?thesis by (simp only: p simp_thms)
qed

text \<open>Claim C7, a witness: a1 relays an offer to b1, a participant of the call k1, and
  to z9, who is not.\<close>

theorem relay_forbidden_witness:
  "getCallById (trim (str_or_empty (rp_callId offer_to_bob))) server_ringing = Some call_k1
   \<and> webrtc_offer ann offer_to_bob server_ringing
       = (AckOk,
          [(''user:b1'', WebrtcOffer \<lparr>rl_callId = ''k1'', rl_fromUserId = ''a1'',
                                      rl_payload = ''sdp''\<rparr>)],
          server_ringing)
   \<and> webrtc_answer ann offer_to_zed server_ringing = (AckError Forbidden_Call, [], server_ringing)
   \<and> webrtc_ice_candidate zed offer_to_bob server_ringing
       = (AckError Forbidden_Call, [], server_ringing)"
proof -
  have f: "getCallById (trim (str_or_empty (rp_callId offer_to_bob))) server_ringing = Some call_k1"
          "getCallById (trim (str_or_empty (rp_callId offer_to_zed))) server_ringing = Some call_k1"
    by code_simp+
  have a: "su_id ann \<in> set (call_participantIds call_k1)"
          "trim (str_or_empty (rp_toUserId offer_to_bob)) \<in> set (call_participantIds call_k1)"
          "trim (str_or_empty (rp_toUserId offer_to_zed)) \<notin> set (call_participantIds call_k1)"
          "su_id zed \<notin> set (call_participantIds call_k1)"
    by code_simp+
  have v: "user_room (trim (str_or_empty (rp_toUserId offer_to_bob))) = ''user:b1''"
          "trim (str_or_empty (rp_callId offer_to_bob)) = ''k1''"
          "su_id ann = ''a1''" "rp_data offer_to_bob = ''sdp''"
    by code_simp+
  from relay_forbidden[OF f(1), of ann] a(1,2)
  have 1: "webrtc_offer ann offer_to_bob server_ringing
       = (AckOk,
          [(''user:b1'', WebrtcOffer \<lparr>rl_callId = ''k1'', rl_fromUserId = ''a1'',
                                      rl_payload = ''sdp''\<rparr>)],
          server_ringing)"
    by (simp add: v)
  from relay_forbidden[OF f(2), of ann] a(3)
  have 2: "webrtc_answer ann offer_to_zed server_ringing
       = (AckError Forbidden_Call, [], server_ringing)"
    by simp
  from relay_forbidden[OF f(1), of zed] a(4)
  have 3: "webrtc_ice_candidate zed offer_to_bob server_ringing
       = (AckError Forbidden_Call, [], server_ringing)"
    by simp
  from f(1) 1 2 3 show ?thesis by (simp only: simp_thms)
qed

text \<open>Claim C8, a witness: b1 declines the ringing call k1; a new call is placed,
  accepted and ended by a disconnect; the id k1 stays unknown.\<close>

theorem decline_removes_witness:
  "calls_wf server_ringing
   \<and> getCallById (trim (str_or_empty (Str ''k1''))) server_ringing = Some call_k1
   \<and> su_id bob \<in> set (call_participantIds call_k1)
   \<and> list_all (\<lambda>ev. fst ev \<noteq> trim (str_or_empty (Str ''k1''))) later_events
   \<and> fst (call_answer bob (Str ''k1'') False server_ringing
           :: ack \<times> (string \<times> string event) list \<times> server) = AckOk
   \<and> map fst (fst (snd (call_answer bob (Str ''k1'') False server_ringing
           :: ack \<times> (string \<times> string event) list \<times> server))) = [''user:a1'', ''user:b1'']
   \<and> snd (snd (call_answer bob (Str ''k1'') False server_ringing
           :: ack \<times> (string \<times> string event) list \<times> server)) = server1
   \<and> fst (call_answer ann (Str ''k1'') True (run later_events server1)
           :: ack \<times> (string \<times> string event) list \<times> server) = AckError NotFound_Call
   \<and> fst (call_end bob (Str ''k1'') (run later_events server1)
           :: ack \<times> (string \<times> string event) list \<times> server) = AckError NotFound_Call"
proof -
  have wf: "calls_wf server_ringing" by code_simp
  have f: "getCallById (trim (str_or_empty (Str ''k1''))) server_ringing = Some call_k1"
    by code_simp
  have p: "su_id bob \<in> set (call_participantIds call_k1)" by code_simp
  have fr: "list_all (\<lambda>ev. fst ev \<noteq> trim (str_or_empty (Str ''k1''))) later_events"
    by code_simp
  have e: "server_ringing\<lparr>activeCalls :=
             AList.delete (trim (str_or_empty (Str ''k1''))) (activeCalls server_ringing)\<rparr>
           = server1"
    by code_simp
  have r: "map (\<lambda>userId. user_room userId) (call_participantIds call_k1) = [''user:a1'', ''user:b1'']"
    by code_simp
  note d = decline_removes[OF wf f p fr, unfolded e]
  from d have 1: "fst (call_answer bob (Str ''k1'') False server_ringing
           :: ack \<times> (string \<times> string event) list \<times> server) = AckOk"
    by simp
  from d have 2: "map fst (fst (snd (call_answer bob (Str ''k1'') False server_ringing
           :: ack \<times> (string \<times> string event) list \<times> server))) = [''user:a1'', ''user:b1'']"
    using r by (simp add: comp_def)
  from d have 3: "snd (snd (call_answer bob (Str ''k1'') False server_ringing
           :: ack \<times> (string \<times> string event) list \<times> server)) = server1"
    by simp
  from d have 4: "fst (call_answer ann (Str ''k1'') True (run later_events server1)
           :: ack \<times> (string \<times> string event) list \<times> server) = AckError NotFound_Call"
    by simp
  from d have 5: "fst (call_end bob (Str ''k1'') (run later_events server1)
           :: ack \<times> (string \<times> string event) list \<times> server) = AckError NotFound_Call"
    by simp
  from wf f p fr 1 2 3 4 5 show ?thesis by (simp only: simp_thms)
qed

text \<open>Claim C9, as stated, fails at the limit 0: the most recent message is
  returned, not the empty list.\<close>

theorem listMessages_recent_counterexample:
  "map m_id (listMessagesForChat ''c1'' 0 data2) = [''m2'']"
  by code_simp

text \<open>Claim C9, a witness: the two messages of the chat c1, listed with the limits 1, 5
  and 0 and through the route.\<close>

theorem listMessages_recent_witness:
  "(1::int) \<le> 1
   \<and> map m_id (listMessagesForChat ''c1'' 1 data2) = [''m2'']
   \<and> (1::int) \<le> 5
   \<and> map m_id (listMessagesForChat ''c1'' 5 data2) = [''m1'', ''m2'']
   \<and> (0::int) < 1
   \<and> listMessagesForChat ''c1'' 0 data2 = listMessagesForChat ''c1'' 1 data2
   \<and> get_messages user_a1 ''c1'' server2
       = Inr (map normalizeMessage
                (most_recent 300 (filter (\<lambda>m. m_chatId m = ''c1'') (messages (store server2)))))
   \<and> length (most_recent 300 (filter (\<lambda>m. m_chatId m = ''c1'') (messages (store server2)))) = 2"
proof -
  have a: "most_recent (nat 1) (map m_id (filter (\<lambda>m. m_chatId m = ''c1'') (messages data2)))
             = [''m2'']"
          "most_recent (nat 5) (map m_id (filter (\<lambda>m. m_chatId m = ''c1'') (messages data2)))
             = [''m1'', ''m2'']"
    by code_simp+
  have l: "(1::int) \<le> 1" "(1::int) \<le> 5" "(0::int) < 1" by simp_all
  note ids = listMessages_recent[THEN conjunct1, rule_format, THEN conjunct2, THEN conjunct1]
  have 1: "map m_id (listMessagesForChat ''c1'' 1 data2) = [''m2'']"
    by (rule trans[OF ids[OF l(1)] a(1)])
  have 2: "map m_id (listMessagesForChat ''c1'' 5 data2) = [''m1'', ''m2'']"
    by (rule trans[OF ids[OF l(2)] a(2)])
  have 3: "listMessagesForChat ''c1'' 0 data2 = listMessagesForChat ''c1'' 1 data2"
    by (rule listMessages_recent[THEN conjunct2, THEN conjunct1, rule_format, OF l(3)])
  have "(case get_messages user_a1 ''c1'' server2 of Inr ms \<Rightarrow> True | Inl e \<Rightarrow> False)"
    by code_simp
  then obtain ms where g: "get_messages user_a1 ''c1'' server2 = Inr ms"
    by (cases "get_messages user_a1 ''c1'' server2") simp_all
  from listMessages_recent[THEN conjunct2, THEN conjunct2, rule_format, OF g]
  have 4: "get_messages user_a1 ''c1'' server2
       = Inr (map normalizeMessage
                (most_recent 300 (filter (\<lambda>m. m_chatId m = ''c1'') (messages (store server2)))))"
    by (simp add: g)
  have 5: "length (most_recent 300 (filter (\<lambda>m. m_chatId m = ''c1'') (messages (store server2)))) = 2"
    by code_simp
  from l 1 2 3 4 5 show ?thesis by (simp only: simp_thms)
qed

text \<open>Claim C10, a witness: a1 accepts the call k1, which is active already.\<close>

theorem answer_active_again_witness:
  "getCallById (trim (str_or_empty (Str ''k1''))) server_active = Some call_k1_active
   \<and> call_status call_k1_active = ''active''
   \<and> su_id ann \<in> set (call_participantIds call_k1_active)
   \<and> fst (call_answer ann (Str ''k1'') True server_active
           :: ack \<times> (string \<times> string event) list \<times> server) = AckOk
   \<and> map fst (fst (snd (call_answer ann (Str ''k1'') True server_active
           :: ack \<times> (string \<times> string event) list \<times> server))) = [''user:a1'', ''user:b1'']
   \<and> snd (snd (call_answer ann (Str ''k1'') True server_active
           :: ack \<times> (string \<times> string event) list \<times> server)) = server_active
   \<and> map_option call_status (getCallById ''k1'' (snd (snd (call_answer ann (Str ''k1'') True server_active
           :: ack \<times> (string \<times> string event) list \<times> server)))) = Some ''active''"
proof -
  have f: "getCallById (trim (str_or_empty (Str ''k1''))) server_active = Some call_k1_active"
    by code_simp
  have st: "call_status call_k1_active = ''active''" by code_simp
  have p: "su_id ann \<in> set (call_participantIds call_k1_active)" by code_simp
  have r: "map (\<lambda>userId. user_room userId) (call_participantIds call_k1_active)
             = [''user:a1'', ''user:b1'']"
    by code_simp
  have k: "trim (str_or_empty (Str ''k1'')) = ''k1''" by code_simp
  note d = answer_active_again[OF f st p, where 'p = string]
  from d have 1: "fst (call_answer ann (Str ''k1'') True server_active
           :: ack \<times> (string \<times> string event) list \<times> server) = AckOk"
    by simp
  from d have 2: "map fst (fst (snd (call_answer ann (Str ''k1'') True server_active
           :: ack \<times> (string \<times> string event) list \<times> server))) = [''user:a1'', ''user:b1'']"
    using r by (simp add: comp_def)
  from d have 3: "snd (snd (call_answer ann (Str ''k1'') True server_active
           :: ack \<times> (string \<times> string event) list \<times> server)) = server_active"
    by simp
  from d f[unfolded k] st have 4: "map_option call_status (getCallById ''k1''
         (snd (snd (call_answer ann (Str ''k1'') True server_active
           :: ack \<times> (string \<times> string event) list \<times> server)))) = Some ''active''"
    by simp
  from f st p 1 2 3 4 show ?thesis by (simp only: simp_thms)
qed

text \<open>A kind or an id padded with no-break spaces is trimmed like one padded with spaces.\<close>

lemma padded_values_are_trimmed:
  "normalizeKind (Str ([CHR 0xA0] @ ''Image '')) None = ''image''
   \<and> normalizeMessageKind (Str ([CHR 0xA0] @ ''image'')) (Str ''video/mp4'') = ''image''
   \<and> trim (''b1'' @ [CHR 0xA0]) = ''b1''"
  by code_simp

end
